theory Spec2Isabelle
  imports Complex_Main
begin

section \<open>Numeric conventions\<close>

text \<open>
  The tracer of \<^verbatim>\<open>umi/trace.py\<close> computes with floating-point numbers. They are modelled
  as real numbers: rounding is not represented. Where the source divides by a quantity that
  can be zero and a claim depends on it, the quotient is a \<open>real option\<close> (\<open>None\<close> is the
  non-finite float, \<open>nan\<close> or \<open>inf\<close>). Python integers are \<open>int\<close> or \<open>nat\<close>.
\<close>

type_synonym vec2 = "real \<times> real"
type_synonym vec3 = "real \<times> real \<times> real"

definition vadd :: "vec2 \<Rightarrow> vec2 \<Rightarrow> vec2" where
  "vadd a b = (fst a + fst b, snd a + snd b)"

definition vsub :: "vec2 \<Rightarrow> vec2 \<Rightarrow> vec2" where
  "vsub a b = (fst a - fst b, snd a - snd b)"

definition smul :: "real \<Rightarrow> vec2 \<Rightarrow> vec2" where
  "smul c v = (c * fst v, c * snd v)"

text \<open>\<^verbatim>\<open>np.linalg.norm\<close> of a row of two components.\<close>

definition norm2 :: "vec2 \<Rightarrow> real" where
  "norm2 v = sqrt ((fst v)\<^sup>2 + (snd v)\<^sup>2)"

text \<open>
  \<^verbatim>\<open>run_rise / np.linalg.norm(run_rise)\<close>. For a zero vector numpy divides zero by zero and
  stores \<open>nan\<close> in both components, which a real number cannot hold: the value of the model at
  the zero vector stands for no value of the program. Every statement below about a slope
  vector, a normal or an angle of an edge is made for edges whose end points differ.
\<close>

definition unitize :: "vec2 \<Rightarrow> vec2" where
  "unitize v = (fst v / norm2 v, snd v / norm2 v)"

text \<open>\<^verbatim>\<open>np.cross\<close> of two vectors of three components.\<close>

definition cross3 :: "vec3 \<Rightarrow> vec3 \<Rightarrow> vec3" where
  "cross3 a b =
     (case a of (a0, a1, a2) \<Rightarrow> case b of (b0, b1, b2) \<Rightarrow>
        (a1 * b2 - a2 * b1, a2 * b0 - a0 * b2, a0 * b1 - a1 * b0))"

text \<open>
  \<^verbatim>\<open>ti.atan2(y, x)\<close>: the angle of the point \<open>(x, y)\<close> in \<open>(-\<pi>, \<pi>]\<close>, and \<open>0\<close> at the
  origin.
\<close>

definition atan2 :: "real \<Rightarrow> real \<Rightarrow> real" where
  "atan2 y x =
     (if 0 < x then arctan (y / x)
      else if x < 0 then (if 0 \<le> y then arctan (y / x) + pi else arctan (y / x) - pi)
      else if 0 < y then pi / 2
      else if y < 0 then - (pi / 2)
      else 0)"

text \<open>The float remainder \<^verbatim>\<open>x % y\<close>, which has the sign of the divisor.\<close>

definition py_fmod :: "real \<Rightarrow> real \<Rightarrow> real" where
  "py_fmod x y = x - y * of_int \<lfloor>x / y\<rfloor>"

text \<open>Float division where the divisor can be zero: \<open>None\<close> is the non-finite quotient.\<close>

definition fdiv :: "real \<Rightarrow> real \<Rightarrow> real option" where
  "fdiv a b = (if b = 0 then None else Some (a / b))"

text \<open>The value an 8-bit signed field keeps of an integer (\<^verbatim>\<open>ti.int8\<close>): it wraps.\<close>

definition to_int8 :: "int \<Rightarrow> int" where
  "to_int8 x = (x + 128) mod 256 - 128"

text \<open>\<^verbatim>\<open>np.cumsum\<close>.\<close>

fun cumsum_from :: "int \<Rightarrow> int list \<Rightarrow> int list" where
  "cumsum_from acc [] = []"
| "cumsum_from acc (x # xs) = (acc + x) # cumsum_from (acc + x) xs"

definition cumsum :: "int list \<Rightarrow> int list" where
  "cumsum xs = cumsum_from 0 xs"

datatype error =
    NodeWidthError
  | TooManyBuildings
  | MissingHeightColumn
  | MissingIdColumn
  | MissingArchetypeColumn
  | DepthError
  | OddSkyAzimuths
  | AzimuthIncMismatch
  | TooManyRays
  | SkyShapeError
  | ZeroDivisionError
  | FloatToIntError
  | ValueError
  | IndexError
  | AssertFalse

section \<open>Data model\<close>

record Building =
  bldg_height :: real
  bldg_n_floors :: real
  archetype_ix :: int
  edge_start_ix :: int
  edge_end_ix :: int
  edge_ct :: int
  north_weight :: "real option"
  east_weight :: "real option"
  south_weight :: "real option"
  west_weight :: "real option"
  qualified_perim_length :: real
  qualified_edge_weight_sum :: "real option"

record Edge =
  building_id :: nat
  edge_start :: vec2
  edge_end :: vec2
  slopevec :: vec2
  slope :: "real option"
  normal :: vec2
  normal_theta :: real
  az_start_angle :: real
  orientation :: int
  edge_height :: real
  weight :: "real option"
  qualified_length :: real
  edge_n_floors :: int
  sensor_start_ix :: int
  sensor_end_ix :: int
  sensor_ct :: int

record XYSensor =
  hit_count :: nat
  loc :: vec2
  parent_edge_id :: nat
  xyz_sensor_start_ix :: int
  xyz_sensor_ct :: int

record XYZSensor =
  xyz_height :: real
  rad :: real
  parent_sensor_id :: nat

record Hit =
  loc_x_ix :: int
  loc_y_ix :: int
  hit_height :: real
  hit_distance :: real

text \<open>
  One row of the GIS table: the boundary coordinate rings of its polygons (a closed ring
  repeats its first point at the end), the building height and the category code of its
  archetype.
\<close>

record Footprint =
  fp_rings :: "vec2 list list"
  fp_height :: real
  fp_archetype :: int

section \<open>Scene builder: \<^verbatim>\<open>Tracer.extract_flat_edge_list\<close>\<close>

text \<open>
  The rows of one ring: start points are the ring without its closing point, end points are
  the start points rolled by \<open>-1\<close>, the slope is the unitized difference, and the normal
  is \<^verbatim>\<open>np.cross(up, cross_test)[:, :2]\<close> with \<open>up = (0, 0, 1)\<close> and
  \<open>cross_test = (slope.x, slope.y, 0)\<close>.
\<close>

definition edge_normal :: "vec2 \<Rightarrow> vec2" where
  "edge_normal run_rise =
     (let cross_test = (fst run_rise, snd run_rise, 0);
          up = (0, 0, 1);
          nrm = cross3 up cross_test
      in (fst nrm, fst (snd nrm)))"

definition ring_rows :: "vec2 list \<Rightarrow> (vec2 \<times> vec2 \<times> vec2 \<times> vec2) list" where
  "ring_rows coords =
     (let start_pts = butlast coords;
          end_pts = rotate1 start_pts
      in map (\<lambda>(s, e). let run_rise = unitize (vsub e s)
                        in (s, e, run_rise, edge_normal run_rise))
             (zip start_pts end_pts))"

text \<open>
  \<^verbatim>\<open>sensor_counts = (lengths - 2 * sensor_inset) / sensor_spacing\<close> followed by
  \<^verbatim>\<open>np.floor(np.where(sensor_counts >= 1, sensor_counts + 1, 0))\<close>, for one edge.
\<close>

definition sensor_count :: "real \<Rightarrow> real \<Rightarrow> vec2 \<Rightarrow> vec2 \<Rightarrow> int" where
  "sensor_count sensor_inset sensor_spacing s e =
     (let lengths = norm2 (vsub s e);
          sensor_counts = (lengths - 2 * sensor_inset) / sensor_spacing
      in \<lfloor>if sensor_counts \<ge> 1 then sensor_counts + 1 else 0\<rfloor>)"

text \<open>The flattened rows of the whole table, each with its building index.\<close>

definition footprint_rows ::
  "real \<Rightarrow> nat \<times> Footprint \<Rightarrow> (nat \<times> real \<times> real \<times> vec2 \<times> vec2 \<times> vec2 \<times> vec2) list" where
  "footprint_rows f2f_height p =
     (case p of (i, fp) \<Rightarrow>
        map (\<lambda>r. (i, fp_height fp, of_int \<lceil>fp_height fp / f2f_height\<rceil>, r))
            (concat (map ring_rows (fp_rings fp))))"

definition flat_rows ::
  "real \<Rightarrow> Footprint list \<Rightarrow> (nat \<times> real \<times> real \<times> vec2 \<times> vec2 \<times> vec2 \<times> vec2) list" where
  "flat_rows f2f_height gdf = concat (map (footprint_rows f2f_height) (enumerate 0 gdf))"

definition mk_edge ::
  "(nat \<times> real \<times> real \<times> vec2 \<times> vec2 \<times> vec2 \<times> vec2) \<Rightarrow> int \<times> int \<times> int \<Rightarrow> Edge" where
  "mk_edge row sens =
     (case row of (i, h, nf, s, e, rr, n) \<Rightarrow> case sens of (s_start, s_end, s_ct) \<Rightarrow>
        \<lparr> building_id = i, edge_start = s, edge_end = e, slopevec = rr, slope = Some 0,
          normal = n, normal_theta = 0, az_start_angle = 0, orientation = 0,
          edge_height = h, weight = Some 0, qualified_length = 0, edge_n_floors = to_int8 \<lfloor>nf\<rfloor>,
          sensor_start_ix = s_start, sensor_end_ix = s_end, sensor_ct = s_ct \<rparr>)"

text \<open>
  \<^verbatim>\<open>Tracer.update_edge_properties\<close>, the part that writes the edge: slope, normal angle,
  orientation bin and azimuth start angle.
\<close>

definition update_edge :: "real \<Rightarrow> Edge \<Rightarrow> Edge" where
  "update_edge azimuth_inc e =
     (let xm = fst (slopevec e);
          ym = snd (slopevec e);
          xn = fst (normal e);
          yn = snd (normal e);
          theta = atan2 yn xn;
          orient = \<lfloor>py_fmod ((py_fmod (theta + 2 * pi) (2 * pi) + pi / 4) / (pi / 2)) 4\<rfloor>
      in e\<lparr> orientation := orient,
            slope := fdiv ym xm,
            normal_theta := theta,
            az_start_angle := theta - pi * 0.5 + azimuth_inc / 2 \<rparr>)"

text \<open>
  The part of \<^verbatim>\<open>update_edge_properties\<close> that counts the edges of each building, and the
  index ranges that \<^verbatim>\<open>extract_flat_edge_list\<close> derives from the counts.
\<close>

definition count_edges :: "Edge list \<Rightarrow> nat \<Rightarrow> int" where
  "count_edges es b = int (length (filter (\<lambda>e. building_id e = b) es))"

definition init_building :: "Footprint \<Rightarrow> Building" where
  "init_building fp =
     \<lparr> bldg_height = fp_height fp, bldg_n_floors = 0,
       archetype_ix = to_int8 (fp_archetype fp), edge_start_ix = 0, edge_end_ix = 0, edge_ct = 0,
       north_weight = Some 0, east_weight = Some 0, south_weight = Some 0,
       west_weight = Some 0, qualified_perim_length = 0,
       qualified_edge_weight_sum = Some 0 \<rparr>"

definition extract_flat_edge_list ::
  "real \<Rightarrow> real \<Rightarrow> real \<Rightarrow> real \<Rightarrow> Footprint list \<Rightarrow> error + (Edge list \<times> Building list)" where
  "extract_flat_edge_list sensor_inset sensor_spacing f2f_height azimuth_inc gdf =
     (if concat (map fp_rings gdf) = [] then Inl ValueError
      else
        let rows = flat_rows f2f_height gdf in
        if rows = [] then Inl IndexError
        else
          let sensor_counts =
                map (\<lambda>(i, h, nf, s, e, rr, n). sensor_count sensor_inset sensor_spacing s e) rows;
              sensor_ends = cumsum sensor_counts;
              sensor_starts = 0 # butlast sensor_ends;
              es = map (\<lambda>(row, sens). update_edge azimuth_inc (mk_edge row sens))
                     (zip rows (zip sensor_starts (zip sensor_ends sensor_counts)));
              edges_per_bldg = map (count_edges es) [0..<length gdf];
              edge_ends = cumsum edges_per_bldg;
              edge_starts = 0 # butlast edge_ends;
              bs = map (\<lambda>(fp, ct, st, en).
                          (init_building fp)
                            \<lparr> edge_ct := ct, edge_start_ix := st, edge_end_ix := en \<rparr>)
                     (zip gdf (zip edges_per_bldg (zip edge_starts edge_ends)))
          in Inr (es, bs))"

text \<open>
  The point of the orientation check that \<^verbatim>\<open>extract_flat_edge_list\<close> keeps in a comment,
  \<^verbatim>\<open>(points + next_points) / 2 + normal * 0.1\<close>: the middle of the edge moved by \<open>0.1\<close>
  along the stored normal. The check expects the footprint not to contain it.
\<close>

definition normal_test_point :: "Edge \<Rightarrow> vec2" where
  "normal_test_point x =
     vadd (smul (1 / 2) (vadd (edge_start x) (edge_end x))) (smul (1 / 10) (normal x))"

section \<open>Sky model: \<^verbatim>\<open>Sky\<close>\<close>

record Sky =
  mfactor :: nat
  sky_n_azimuths :: nat
  azimuthal_aperture :: real
  sky_n_elevations :: nat
  elevational_aperture :: real
  elevation_centers :: "real list"
  azimuth_centers :: "real list"
  solid_angles :: "real list"
  radiance :: "real list list list"
  normal_irradiance :: "real list list list"

text \<open>The hours of a year, the time axis of every sky array.\<close>

definition n_timesteps :: nat where
  "n_timesteps = 8760"

text \<open>\<^verbatim>\<open>base_patches_per_elevation.repeat(mfactor) * mfactor\<close>.\<close>

definition base_patches_per_elevation :: "nat list" where
  "base_patches_per_elevation = [30, 30, 24, 24, 18, 12, 6]"

definition patches_per_elevation :: "nat \<Rightarrow> nat list" where
  "patches_per_elevation mf =
     map (\<lambda>b. b * mf) (concat (map (replicate mf) base_patches_per_elevation))"

text \<open>\<^verbatim>\<open>reshape(n, g, 8760)\<close> of an array of rows: \<open>n\<close> groups of \<open>g\<close> consecutive rows.\<close>

fun reshape_groups :: "nat \<Rightarrow> nat \<Rightarrow> 'a list \<Rightarrow> 'a list list" where
  "reshape_groups 0 g xs = []"
| "reshape_groups (Suc n) g xs = take g xs # reshape_groups n g (drop g xs)"

text \<open>\<^verbatim>\<open>grouped_patches.mean(axis=1)\<close> for one group of \<open>g\<close> rows.\<close>

definition mean_group :: "real list list \<Rightarrow> real list" where
  "mean_group grp =
     map (\<lambda>t. sum_list (map (\<lambda>r. r ! t) grp) / real (length grp)) [0..<n_timesteps]"

text \<open>
  The body of the loop over parallel bands in
  \<^verbatim>\<open>Sky.reinhart_to_meridinal_parallel_sky\<close>: subdivide each patch \<open>lcm / n\<close> times, regroup
  into \<open>n_azimuths\<close> groups and take the mean of each group. With no target azimuth the
  grouping factor \<^verbatim>\<open>int(lcm / self.n_azimuths)\<close> is not a number and the conversion raises.
\<close>

definition resample_band :: "nat \<Rightarrow> real list list \<Rightarrow> error + real list list" where
  "resample_band n_azimuths elevation_patches =
     (let patches_in_elevation = length elevation_patches;
          l = lcm patches_in_elevation n_azimuths
      in if n_azimuths = 0 \<or> patches_in_elevation = 0 then Inl ValueError
         else
           let div_factor = l div patches_in_elevation;
               grouping_factor = l div n_azimuths;
               subdivided_patches = concat (map (replicate div_factor) elevation_patches);
               grouped_patches = reshape_groups n_azimuths grouping_factor subdivided_patches
           in Inr (map mean_group grouped_patches))"

fun resample_bands :: "nat \<Rightarrow> real list list list \<Rightarrow> error + real list list list" where
  "resample_bands n_azimuths [] = Inr []"
| "resample_bands n_azimuths (b # bs) =
     (case resample_band n_azimuths b of
        Inl err \<Rightarrow> Inl err
      | Inr r \<Rightarrow> (case resample_bands n_azimuths bs of
                    Inl err \<Rightarrow> Inl err
                  | Inr rs \<Rightarrow> Inr (r # rs)))"

text \<open>The slices \<^verbatim>\<open>sky_patch_timeseries[start:end]\<close> of the bands, from the band sizes.\<close>

fun band_slices :: "nat list \<Rightarrow> 'a list \<Rightarrow> 'a list list" where
  "band_slices [] rows = []"
| "band_slices (n # ns) rows = take n rows # band_slices ns (drop n rows)"

text \<open>\<^verbatim>\<open>compute_quad_solid_angle\<close>.\<close>

definition compute_quad_solid_angle :: "real \<Rightarrow> real \<Rightarrow> real \<Rightarrow> real" where
  "compute_quad_solid_angle az_aperture el_aperture elevation_start =
     (let elevation_top = elevation_start + el_aperture;
          lune_frac = az_aperture / (2 * pi);
          zone_height = sin elevation_top - sin elevation_start;
          zone_frac = zone_height / 2;
          quad_frac = lune_frac * zone_frac
      in quad_frac * 4 * pi)"

text \<open>
  The attributes that \<^verbatim>\<open>Sky.__init__\<close> computes before the conversion:
  \<^verbatim>\<open>np.radians(360) / n_azimuths\<close>, the number of bands, \<^verbatim>\<open>np.radians(90 - 6) / n_elevations\<close>
  and the band centres.
\<close>

definition sky_attrs :: "nat \<Rightarrow> nat \<Rightarrow> Sky" where
  "sky_attrs mf n_az =
     (let n_el = length (patches_per_elevation mf);
          el_ap = (84 * pi / 180) / real n_el
      in \<lparr> mfactor = mf, sky_n_azimuths = n_az,
           azimuthal_aperture = 2 * pi / real n_az,
           sky_n_elevations = n_el,
           elevational_aperture = el_ap,
           elevation_centers = map (\<lambda>i. el_ap * real i + el_ap / 2) [0..<n_el],
           azimuth_centers = [], solid_angles = [], radiance = [], normal_irradiance = [] \<rparr>)"

text \<open>
  \<^verbatim>\<open>Sky.reinhart_to_meridinal_parallel_sky\<close> on the parsed matrix, one RGB triple per
  patch and hour: channel mean, \<^verbatim>\<open>reshape(-1, 8760)\<close>, the shape assertion, ground and zenith
  dropped, the loop over the bands, then solid angles and normal irradiance.
\<close>

definition reinhart_to_meridinal_parallel_sky ::
  "Sky \<Rightarrow> (real \<times> real \<times> real) list \<Rightarrow> error + Sky" where
  "reinhart_to_meridinal_parallel_sky self mtx =
     (let values = map (\<lambda>(r, g, b). (r + g + b) / 3) mtx;
          ppe = patches_per_elevation (mfactor self);
          n_el = length ppe
      in if length values mod n_timesteps \<noteq> 0 then Inl ValueError
         else
           let sky_patch_timeseries =
                 reshape_groups (length values div n_timesteps) n_timesteps values
           in if int (sum_list ppe) \<noteq> int (length sky_patch_timeseries) - 2 then Inl SkyShapeError
              else if n_el = 0 then Inl ValueError
              else
                (case resample_bands (sky_n_azimuths self)
                        (band_slices ppe (butlast (tl sky_patch_timeseries))) of
                   Inl err \<Rightarrow> Inl err
                 | Inr resampled \<Rightarrow>
                     let el_ap = (84 * pi / 180) / real n_el;
                         elevation_starts = map (\<lambda>i. real i * el_ap) [0..<n_el];
                         omegas = map (compute_quad_solid_angle (azimuthal_aperture self) el_ap)
                                    elevation_starts
                     in Inr (self
                          \<lparr> sky_n_elevations := n_el,
                            elevational_aperture := el_ap,
                            elevation_centers := map (\<lambda>i. el_ap * real i + el_ap / 2) [0..<n_el],
                            azimuth_centers :=
                              map (\<lambda>i. azimuthal_aperture self * real i + azimuthal_aperture self / 2)
                                [0..<sky_n_azimuths self],
                            solid_angles := omegas,
                            radiance := resampled,
                            normal_irradiance :=
                              map (\<lambda>(band, omega). map (map (\<lambda>v. v * omega)) band)
                                (zip resampled omegas) \<rparr>)))"

text \<open>
  The rows that the conversion keeps of the matrix, \<^verbatim>\<open>sky_patch_timeseries[1:-1]\<close>, and the
  slice of them that its loop takes for band \<open>i\<close>,
  \<^verbatim>\<open>sky_patch_timeseries[elevation_band_start:elevation_band_end]\<close>.
\<close>

definition sky_patch_timeseries :: "(real \<times> real \<times> real) list \<Rightarrow> real list list" where
  "sky_patch_timeseries mtx =
     (let values = map (\<lambda>(r, g, b). (r + g + b) / 3) mtx
      in butlast (tl (reshape_groups (length values div n_timesteps) n_timesteps values)))"

definition elevation_patches :: "Sky \<Rightarrow> (real \<times> real \<times> real) list \<Rightarrow> nat \<Rightarrow> real list list" where
  "elevation_patches self mtx i =
     band_slices (patches_per_elevation (mfactor self)) (sky_patch_timeseries mtx) ! i"

text \<open>\<^verbatim>\<open>Sky.__init__\<close> with \<^verbatim>\<open>run_conversion=True\<close>, from the parsed sky matrix.\<close>

definition sky_init :: "nat \<Rightarrow> nat \<Rightarrow> (real \<times> real \<times> real) list \<Rightarrow> error + Sky" where
  "sky_init mf n_az mtx = reinhart_to_meridinal_parallel_sky (sky_attrs mf n_az) mtx"

section \<open>Tracer construction: \<^verbatim>\<open>Tracer.__init__\<close>\<close>

record TracerArgs =
  arg_sky :: Sky
  arg_gdf :: "Footprint list"
  has_height_col :: bool
  has_id_col :: bool
  has_archetype_col :: bool
  arg_node_width :: real
  arg_sensor_inset :: real
  arg_sensor_normal_offset :: real
  arg_sensor_spacing :: real
  arg_f2f_height :: real
  arg_max_ray_length :: real
  arg_ray_step_size :: real
  arg_steps_per_unroll_loop :: int

record Tracer =
  sky :: Sky
  node_width :: real
  sensor_inset :: real
  sensor_normal_offset :: real
  sensor_spacing :: real
  f2f_height :: real
  max_ray_length :: real
  ray_step_size :: real
  n_ray_steps :: int
  steps_per_unroll_loop :: int
  n_loops_to_unroll :: int
  width :: real
  scene_length :: real
  depth :: int
  n_azimuths :: nat
  azimuth_inc :: real
  azimuths :: "real list"
  n_elevations :: nat
  elevation_inc :: real
  elevations :: "real list"
  buildings :: "Building list"
  edges :: "Edge list"
  nodes :: "int \<times> int \<rightharpoonup> real"
  xy_sensors :: "XYSensor list"
  xyz_sensors :: "XYZSensor list"
  hits :: "nat \<times> nat \<Rightarrow> Hit list"
  xyz_views :: "(nat \<times> nat \<times> nat) set"
  xyz_sensor_timesteps :: "nat \<Rightarrow> nat \<Rightarrow> real"

text \<open>Python's \<^verbatim>\<open>int(x)\<close> of a float: truncation toward zero.\<close>

definition py_int :: "real \<Rightarrow> int" where
  "py_int x = (if 0 \<le> x then \<lfloor>x\<rfloor> else \<lceil>x\<rceil>)"

text \<open>\<^verbatim>\<open>gdf.geometry.total_bounds\<close> and \<^verbatim>\<open>gdf.geometry.translate\<close>.\<close>

definition all_points :: "Footprint list \<Rightarrow> vec2 list" where
  "all_points gdf = concat (concat (map fp_rings gdf))"

definition total_bounds :: "Footprint list \<Rightarrow> real \<times> real \<times> real \<times> real" where
  "total_bounds gdf =
     (let xs = map fst (all_points gdf); ys = map snd (all_points gdf)
      in (fold min (tl xs) (hd xs), fold min (tl ys) (hd ys),
          fold max (tl xs) (hd xs), fold max (tl ys) (hd ys)))"

definition translate :: "real \<Rightarrow> real \<Rightarrow> Footprint list \<Rightarrow> Footprint list" where
  "translate dx dy gdf =
     map (\<lambda>fp. fp\<lparr> fp_rings := map (map (\<lambda>p. (fst p + dx, snd p + dy))) (fp_rings fp) \<rparr>) gdf"

text \<open>
  The relocated table, the scene's length and width, and the grid depth
  \<^verbatim>\<open>int(np.ceil(np.log2(min_nodes_required)))\<close> that the constructor computes from them.
\<close>

definition relocated_gdf :: "TracerArgs \<Rightarrow> Footprint list" where
  "relocated_gdf a =
     (let padding = 5 * arg_node_width a in
      case total_bounds (arg_gdf a) of (x_low, y_low, x_high, y_high) \<Rightarrow>
        translate (- x_low + padding) (- y_low + padding) (arg_gdf a))"

definition scene_dims :: "TracerArgs \<Rightarrow> real \<times> real" where
  "scene_dims a =
     (let padding = 5 * arg_node_width a in
      case total_bounds (relocated_gdf a) of (x_low, y_low, x_high, y_high) \<Rightarrow>
        (y_high + padding, x_high + padding))"

definition max_dim :: "TracerArgs \<Rightarrow> real" where
  "max_dim a = (case scene_dims a of (len, wid) \<Rightarrow> if len > wid then len else wid)"

definition min_nodes_required :: "TracerArgs \<Rightarrow> int" where
  "min_nodes_required a = \<lceil>max_dim a / arg_node_width a\<rceil>"

definition required_depth :: "TracerArgs \<Rightarrow> int" where
  "required_depth a = \<lceil>log 2 (of_int (min_nodes_required a))\<rceil>"

text \<open>
  The constructor, in the order of the source: the assertion on the node width, the step
  counts (Python raises on a zero divisor), the assertions on the building count and on the
  three columns, the approximate sensor count (\<^verbatim>\<open>int\<close> of a non-finite float raises), the
  bounding box (not a number for an empty table), the assertion on the depth, the
  assertions on the sky's azimuths, and the edge extraction.
\<close>

definition tracer_init :: "TracerArgs \<Rightarrow> error + Tracer" where
  "tracer_init a =
     (if arg_node_width a \<noteq> 1 then Inl NodeWidthError
      else if arg_ray_step_size a = 0 \<or> arg_steps_per_unroll_loop a = 0 then Inl ZeroDivisionError
      else if \<not> int (length (arg_gdf a)) < 2 ^ 16 then Inl TooManyBuildings
      else if \<not> has_height_col a then Inl MissingHeightColumn
      else if \<not> has_id_col a then Inl MissingIdColumn
      else if \<not> has_archetype_col a then Inl MissingArchetypeColumn
      else if arg_gdf a \<noteq> [] \<and> (arg_sensor_spacing a = 0 \<or> arg_f2f_height a = 0)
        then Inl FloatToIntError
      else if all_points (arg_gdf a) = [] then Inl ValueError
      else if min_nodes_required a \<le> 0 then Inl FloatToIntError
      else if \<not> required_depth a < 16 then Inl DepthError
      else if odd (sky_n_azimuths (arg_sky a)) then Inl OddSkyAzimuths
      else if sky_n_azimuths (arg_sky a) div 2 = 0 then Inl ZeroDivisionError
      else if azimuthal_aperture (arg_sky a)
                \<noteq> 2 * pi / (2 * real (sky_n_azimuths (arg_sky a) div 2))
        then Inl AzimuthIncMismatch
      else
        let n_steps = py_int (arg_max_ray_length a / arg_ray_step_size a);
            n_az = sky_n_azimuths (arg_sky a) div 2;
            inc = azimuthal_aperture (arg_sky a)
        in case extract_flat_edge_list (arg_sensor_inset a) (arg_sensor_spacing a)
                  (arg_f2f_height a) inc (relocated_gdf a) of
             Inl err \<Rightarrow> Inl err
           | Inr (es, bs) \<Rightarrow>
               Inr \<lparr> sky = arg_sky a,
                     node_width = arg_node_width a,
                     sensor_inset = arg_sensor_inset a,
                     sensor_normal_offset = arg_sensor_normal_offset a,
                     sensor_spacing = arg_sensor_spacing a,
                     f2f_height = arg_f2f_height a,
                     max_ray_length = arg_max_ray_length a,
                     ray_step_size = arg_ray_step_size a,
                     n_ray_steps = n_steps,
                     steps_per_unroll_loop = arg_steps_per_unroll_loop a,
                     n_loops_to_unroll =
                       \<lceil>real_of_int n_steps / real_of_int (arg_steps_per_unroll_loop a)\<rceil>,
                     width = snd (scene_dims a),
                     scene_length = fst (scene_dims a),
                     depth = required_depth a,
                     n_azimuths = n_az,
                     azimuth_inc = inc,
                     azimuths = map (\<lambda>i. real i * inc) [0..<n_az],
                     n_elevations = sky_n_elevations (arg_sky a),
                     elevation_inc = elevational_aperture (arg_sky a),
                     elevations = elevation_centers (arg_sky a),
                     buildings = bs,
                     edges = es,
                     nodes = Map.empty,
                     xy_sensors = [],
                     xyz_sensors = [],
                     hits = (\<lambda>k. []),
                     xyz_views = {},
                     xyz_sensor_timesteps = (\<lambda>s t. 0) \<rparr>)"

section \<open>Sensor layout: \<^verbatim>\<open>init_xy_sensors\<close> and \<^verbatim>\<open>init_xyz_sensors\<close>\<close>

text \<open>\<^verbatim>\<open>np.repeat(np.arange(n), counts)\<close>; a negative count raises.\<close>

definition repeat_arange :: "int list \<Rightarrow> error + nat list" where
  "repeat_arange cts =
     (if \<exists>c \<in> set cts. c < 0 then Inl ValueError
      else Inr (concat (map (\<lambda>(i, c). replicate (nat c) i) (enumerate 0 cts))))"

definition init_xy_sensor :: "Tracer \<Rightarrow> nat \<Rightarrow> nat \<Rightarrow> XYSensor" where
  "init_xy_sensor T sensor_ix parent_id =
     (let edge = edges T ! parent_id;
          slope_v = slopevec edge;
          start_gap = smul (sensor_inset T) slope_v;
          gap_ct = int sensor_ix - sensor_start_ix edge;
          distance = vadd start_gap (smul (of_int gap_ct * sensor_spacing T) slope_v);
          start_loc = edge_start edge;
          nrm = normal edge
      in \<lparr> hit_count = 0,
           loc = vadd (vadd start_loc distance) (smul (sensor_normal_offset T) nrm),
           parent_edge_id = parent_id,
           xyz_sensor_start_ix = 0,
           xyz_sensor_ct = edge_n_floors edge \<rparr>)"

definition init_xyz_sensor :: "Tracer \<Rightarrow> XYSensor list \<Rightarrow> nat \<Rightarrow> nat \<Rightarrow> XYZSensor" where
  "init_xyz_sensor T xys sensor_ix parent_id =
     (let xy_sensor = xys ! parent_id;
          floor_ix = int sensor_ix - xyz_sensor_start_ix xy_sensor
      in \<lparr> xyz_height = of_int floor_ix * 1.5 * f2f_height T, rad = 0,
           parent_sensor_id = parent_id \<rparr>)"

section \<open>Ray tracer\<close>

text \<open>
  The state of one ray at step \<open>k\<close> of \<^verbatim>\<open>Tracer.trace_xyz_ray\<close>: the distance
  \<^verbatim>\<open>ray_step_ix * self.ray_step_size\<close>, the location \<^verbatim>\<open>start + distance * slope\<close>, the
  termination test \<^verbatim>\<open>in_domain\<close> (strictly inside the scene and strictly below the maximal
  ray length), and the obstruction test of the loop body.
\<close>

definition ray_distance :: "Tracer \<Rightarrow> nat \<Rightarrow> real" where
  "ray_distance T k = real k * ray_step_size T"

definition next_loc :: "Tracer \<Rightarrow> vec2 \<Rightarrow> vec2 \<Rightarrow> nat \<Rightarrow> vec2" where
  "next_loc T start slope_v k = vadd start (smul (ray_distance T k) slope_v)"

definition in_scene :: "Tracer \<Rightarrow> vec2 \<Rightarrow> bool" where
  "in_scene T p = (fst p > 0 \<and> snd p > 0 \<and> fst p < width T \<and> snd p < scene_length T)"

definition in_domain :: "Tracer \<Rightarrow> vec2 \<Rightarrow> vec2 \<Rightarrow> nat \<Rightarrow> bool" where
  "in_domain T start slope_v k =
     (in_scene T (next_loc T start slope_v k) \<and> ray_distance T k < max_ray_length T)"

definition cell_of :: "vec2 \<Rightarrow> int \<times> int" where
  "cell_of p = (\<lfloor>fst p\<rfloor>, \<lfloor>snd p\<rfloor>)"

definition obstructs :: "Tracer \<Rightarrow> vec2 \<Rightarrow> vec2 \<Rightarrow> real \<Rightarrow> real \<Rightarrow> nat \<Rightarrow> bool" where
  "obstructs T start slope_v el_angle xyz_sensor_height k =
     (case nodes T (cell_of (next_loc T start slope_v k)) of
        None \<Rightarrow> False
      | Some node_height \<Rightarrow>
          let height_diff = node_height - xyz_sensor_height;
              theta = atan2 height_diff (ray_distance T k)
          in theta > el_angle)"

text \<open>
  The \<^verbatim>\<open>while in_domain and hit_found != 1\<close> loop. The step counter is advanced after the
  body, so on a hit the value returned is the distance of the step after the hit; with no
  hit it is \<open>-1\<close>. The loop need not end, hence the option type.
\<close>

partial_function (option) trace_loop ::
  "Tracer \<Rightarrow> vec2 \<Rightarrow> vec2 \<Rightarrow> real \<Rightarrow> real \<Rightarrow> nat \<Rightarrow> nat \<Rightarrow> real option" where
  "trace_loop T start slope_v el_angle xyz_sensor_height ray_step_ix hit_found =
     (if in_domain T start slope_v ray_step_ix \<and> hit_found \<noteq> 1
      then trace_loop T start slope_v el_angle xyz_sensor_height (ray_step_ix + 1)
             (if obstructs T start slope_v el_angle xyz_sensor_height ray_step_ix
              then 1 else hit_found)
      else Some (if hit_found = 0 then - 1 else ray_distance T ray_step_ix))"

definition trace_xyz_ray :: "Tracer \<Rightarrow> vec2 \<Rightarrow> vec2 \<Rightarrow> real \<Rightarrow> real \<Rightarrow> real option" where
  "trace_xyz_ray T start slope_v el_angle xyz_sensor_height =
     trace_loop T start slope_v el_angle xyz_sensor_height 0 0"

text \<open>The index domain \<^verbatim>\<open>ti.ndrange(a, b, c)\<close>.\<close>

definition ndrange :: "nat \<Rightarrow> nat \<Rightarrow> nat \<Rightarrow> (nat \<times> nat \<times> nat) list" where
  "ndrange a b c = List.product [0..<a] (List.product [0..<b] [0..<c])"

text \<open>The ray of an xy sensor and an azimuth index: its start and its direction.\<close>

definition ray_az_angle :: "Tracer \<Rightarrow> XYSensor \<Rightarrow> nat \<Rightarrow> real" where
  "ray_az_angle T sensor az_ix =
     azimuths T ! az_ix + az_start_angle (edges T ! parent_edge_id sensor)"

definition ray_slope :: "Tracer \<Rightarrow> XYSensor \<Rightarrow> nat \<Rightarrow> vec2" where
  "ray_slope T sensor az_ix =
     (let az_angle = ray_az_angle T sensor az_ix in (cos az_angle, sin az_angle))"

text \<open>
  \<^verbatim>\<open>Tracer.xyz_trace_unified\<close>: the body for one index triple, and the kernel over the whole
  index domain. An unobstructed ray adds one to the sensor's tally and sets its bit.
\<close>

definition unified_ray :: "Tracer \<Rightarrow> nat \<times> nat \<times> nat \<Rightarrow> real option" where
  "unified_ray T ix =
     (case ix of (sensor_ix, az_ix, el_ix) \<Rightarrow>
        let parent_sensor = xy_sensors T ! parent_sensor_id (xyz_sensors T ! sensor_ix);
            xyz_sensor_height = xyz_height (xyz_sensors T ! sensor_ix);
            el_angle = elevations T ! el_ix
        in trace_xyz_ray T (loc parent_sensor) (ray_slope T parent_sensor az_ix)
             el_angle xyz_sensor_height)"

definition mark_visible :: "Tracer \<Rightarrow> nat \<times> nat \<times> nat \<Rightarrow> Tracer" where
  "mark_visible T ix =
     (case ix of (sensor_ix, az_ix, el_ix) \<Rightarrow>
        T\<lparr> xyz_sensors :=
             (xyz_sensors T)[sensor_ix :=
                (xyz_sensors T ! sensor_ix)\<lparr> rad := rad (xyz_sensors T ! sensor_ix) + 1 \<rparr>],
           xyz_views := insert ix (xyz_views T) \<rparr>)"

definition unified_body :: "Tracer \<Rightarrow> nat \<times> nat \<times> nat \<Rightarrow> Tracer option" where
  "unified_body T ix =
     (case unified_ray T ix of
        None \<Rightarrow> None
      | Some distance \<Rightarrow> Some (if distance < 0 then mark_visible T ix else T))"

fun kernel_fold :: "('s \<Rightarrow> 'i \<Rightarrow> 's option) \<Rightarrow> 'i list \<Rightarrow> 's \<Rightarrow> 's option" where
  "kernel_fold body [] T = Some T"
| "kernel_fold body (ix # ixs) T =
     (case body T ix of None \<Rightarrow> None | Some T' \<Rightarrow> kernel_fold body ixs T')"

definition xyz_trace_unified :: "Tracer \<Rightarrow> Tracer option" where
  "xyz_trace_unified T =
     kernel_fold unified_body
       (ndrange (length (xyz_sensors T)) (n_azimuths T) (n_elevations T)) T"

text \<open>
  What the claims say of a ray. Step \<open>k\<close> is sampled when it and every step before it pass
  the termination test; the ray of an index triple is clear when no sampled step obstructs.
  Two tracer states show the same scene when they differ at most in the tallies, the
  visibility bits and the accumulated series.
\<close>

definition sampled :: "Tracer \<Rightarrow> vec2 \<Rightarrow> vec2 \<Rightarrow> nat \<Rightarrow> bool" where
  "sampled T start slope_v k = (\<forall>j \<in> {..k}. in_domain T start slope_v j)"

definition ray_clear :: "Tracer \<Rightarrow> nat \<times> nat \<times> nat \<Rightarrow> bool" where
  "ray_clear T ix =
     (case ix of (sensor_ix, az_ix, el_ix) \<Rightarrow>
        let parent_sensor = xy_sensors T ! parent_sensor_id (xyz_sensors T ! sensor_ix);
            xyz_sensor_height = xyz_height (xyz_sensors T ! sensor_ix);
            el_angle = elevations T ! el_ix;
            start = loc parent_sensor;
            slope_v = ray_slope T parent_sensor az_ix
        in \<forall>k. sampled T start slope_v k
                 \<longrightarrow> \<not> obstructs T start slope_v el_angle xyz_sensor_height k)"

definition same_scene :: "Tracer \<Rightarrow> Tracer \<Rightarrow> bool" where
  "same_scene T T' =
     (width T' = width T \<and> scene_length T' = scene_length T \<and>
      max_ray_length T' = max_ray_length T \<and> ray_step_size T' = ray_step_size T \<and>
      nodes T' = nodes T \<and> edges T' = edges T \<and> xy_sensors T' = xy_sensors T \<and>
      azimuths T' = azimuths T \<and> elevations T' = elevations T \<and>
      n_azimuths T' = n_azimuths T \<and> n_elevations T' = n_elevations T \<and>
      hits T' = hits T \<and>
      map xyz_height (xyz_sensors T') = map xyz_height (xyz_sensors T) \<and>
      map parent_sensor_id (xyz_sensors T') = map parent_sensor_id (xyz_sensors T))"

text \<open>
  \<^verbatim>\<open>Tracer.xy_trace\<close>: for every unrolled block of steps, every xy sensor, azimuth and step of
  the block, an active cell under the stepped location (tested against the scene only) is
  appended to the hit list of the sensor and azimuth, and the sensor's hit count grows.
\<close>

definition xy_body :: "nat \<Rightarrow> Tracer \<Rightarrow> nat \<times> nat \<times> nat \<Rightarrow> Tracer" where
  "xy_body step_offset T ix =
     (case ix of (sensor_ix, az_ix, ray_step_ix) \<Rightarrow>
        let sensor = xy_sensors T ! sensor_ix;
            slope_v = ray_slope T sensor az_ix;
            start = loc sensor;
            k = ray_step_ix + step_offset;
            p = next_loc T start slope_v k
        in if in_scene T p then
             (case nodes T (cell_of p) of
                None \<Rightarrow> T
              | Some node_height \<Rightarrow>
                  T\<lparr> hits := (hits T)((sensor_ix, az_ix) :=
                         hits T (sensor_ix, az_ix) @
                           [\<lparr> loc_x_ix = fst (cell_of p), loc_y_ix = snd (cell_of p),
                              hit_height = node_height, hit_distance = ray_distance T k \<rparr>]),
                     xy_sensors := (xy_sensors T)[sensor_ix :=
                         sensor\<lparr> hit_count := hit_count sensor + 1 \<rparr>] \<rparr>)
           else T)"

definition xy_trace :: "Tracer \<Rightarrow> Tracer" where
  "xy_trace T =
     fold (\<lambda>loop_ix T'.
             fold (\<lambda>ix T''. xy_body (loop_ix * nat (steps_per_unroll_loop T)) T'' ix)
               (ndrange (length (xy_sensors T)) (n_azimuths T) (nat (steps_per_unroll_loop T)))
               T')
       [0..<nat (n_loops_to_unroll T)] T"

text \<open>
  \<^verbatim>\<open>Tracer.xyz_trace\<close>. The number of hits to check is the hit count of the xy sensor, which
  \<^verbatim>\<open>xy_trace\<close> increments for every azimuth; an element read past the end of a hit list is
  the zero-filled struct of an inactive cell.
\<close>

definition hit_at :: "Hit list \<Rightarrow> nat \<Rightarrow> Hit" where
  "hit_at hs i =
     (if i < length hs then hs ! i
      else \<lparr> loc_x_ix = 0, loc_y_ix = 0, hit_height = 0, hit_distance = 0 \<rparr>)"

function xyz_scan :: "Hit list \<Rightarrow> real \<Rightarrow> real \<Rightarrow> nat \<Rightarrow> nat \<Rightarrow> nat \<Rightarrow> nat" where
  "xyz_scan hs xyz_sensor_height el_angle n_hits_to_check hit_ix hit_found =
     (if hit_ix < n_hits_to_check \<and> hit_found \<noteq> 1
      then
        let hit = hit_at hs hit_ix;
            height_diff = hit_height hit - xyz_sensor_height;
            theta = atan2 height_diff (hit_distance hit)
        in xyz_scan hs xyz_sensor_height el_angle n_hits_to_check (hit_ix + 1)
             (if theta > el_angle then 1 else hit_found)
      else hit_found)"
  by pat_completeness auto
termination
  by (relation "measure (\<lambda>(hs, h, el, n, i, f). n - i)") auto

definition xyz_hit_found :: "Tracer \<Rightarrow> nat \<times> nat \<times> nat \<Rightarrow> nat" where
  "xyz_hit_found T ix =
     (case ix of (sensor_ix, az_ix, el_ix) \<Rightarrow>
        let parent = parent_sensor_id (xyz_sensors T ! sensor_ix);
            xyz_sensor_height = xyz_height (xyz_sensors T ! sensor_ix);
            n_hits_to_check = hit_count (xy_sensors T ! parent);
            el_angle = elevations T ! el_ix
        in xyz_scan (hits T (parent, az_ix)) xyz_sensor_height el_angle n_hits_to_check 0 0)"

definition xyz_body :: "Tracer \<Rightarrow> nat \<times> nat \<times> nat \<Rightarrow> Tracer" where
  "xyz_body T ix = (if xyz_hit_found T ix \<noteq> 1 then mark_visible T ix else T)"

definition xyz_trace :: "Tracer \<Rightarrow> Tracer" where
  "xyz_trace T =
     fold (\<lambda>ix T'. xyz_body T' ix)
       (ndrange (length (xyz_sensors T)) (n_azimuths T) (n_elevations T)) T"

definition two_phase_trace :: "Tracer \<Rightarrow> Tracer" where
  "two_phase_trace T = xyz_trace (xy_trace T)"

section \<open>Accumulator: \<^verbatim>\<open>Tracer.timestep_sky\<close>\<close>

definition sky_patch_az_ix :: "Tracer \<Rightarrow> real \<Rightarrow> int" where
  "sky_patch_az_ix T az_angle =
     \<lfloor>az_angle / azimuth_inc T\<rfloor> mod int (sky_n_azimuths (sky T))"

definition incidence_factor :: "real \<Rightarrow> real \<Rightarrow> real \<Rightarrow> real" where
  "incidence_factor az_angle theta el_angle = cos \<bar>az_angle - theta\<bar> * cos el_angle"

definition normal_irradiance_field :: "Tracer \<Rightarrow> nat \<Rightarrow> nat \<Rightarrow> nat \<Rightarrow> real" where
  "normal_irradiance_field T el_ix az_ix timestep =
     normal_irradiance (sky T) ! el_ix ! az_ix ! timestep"

text \<open>What one set bit adds to its sensor at one hour.\<close>

definition contribution :: "Tracer \<Rightarrow> nat \<times> nat \<times> nat \<Rightarrow> nat \<Rightarrow> real" where
  "contribution T ix timestep =
     (case ix of (sensor_ix, az_ix, el_ix) \<Rightarrow>
        let xyz_sensor = xyz_sensors T ! sensor_ix;
            parent_xy_sen = xy_sensors T ! parent_sensor_id xyz_sensor;
            parent_edge = edges T ! parent_edge_id parent_xy_sen;
            az_angle = azimuths T ! az_ix + az_start_angle parent_edge;
            patch = nat (sky_patch_az_ix T az_angle);
            factor = incidence_factor az_angle (normal_theta parent_edge) (elevations T ! el_ix)
        in normal_irradiance_field T el_ix patch timestep * factor)"

definition timestep_body ::
  "Tracer \<Rightarrow> nat \<times> nat \<times> nat \<Rightarrow> (nat \<Rightarrow> nat \<Rightarrow> real) \<Rightarrow> (nat \<Rightarrow> nat \<Rightarrow> real)" where
  "timestep_body T ix ts =
     fold (\<lambda>timestep ts'.
             ts'(fst ix := (ts' (fst ix))(timestep :=
                   ts' (fst ix) timestep + contribution T ix timestep)))
       [0..<n_timesteps] ts"

text \<open>
  The struct-for \<^verbatim>\<open>for sensor_ix, az_ix, el_ix in self.xyz_views\<close> runs its body once for
  every active cell of the bit-masked field. A cell becomes active when it is written, the
  only writes are \<^verbatim>\<open>self.xyz_views[sensor_ix, az_ix, el_ix] = 1\<close> in the tracing kernels, and
  nothing deactivates a cell: the active cells are the set bits. The additions to a sensor's
  row are atomic and commute, so the order of the visits is immaterial. What the runtime
  does with the bit-packed field beyond this reading of the source is not represented.
\<close>

definition active_views :: "Tracer \<Rightarrow> (nat \<times> nat \<times> nat) list" where
  "active_views T =
     filter (\<lambda>ix. ix \<in> xyz_views T)
       (ndrange (length (xyz_sensors T)) (n_azimuths T) (n_elevations T))"

definition timestep_sky :: "Tracer \<Rightarrow> Tracer" where
  "timestep_sky T =
     T\<lparr> xyz_sensor_timesteps := fold (timestep_body T) (active_views T) (xyz_sensor_timesteps T) \<rparr>"

section \<open>The pipeline: \<^verbatim>\<open>Tracer.ray_trace\<close>\<close>

text \<open>
  The height grid that \<^verbatim>\<open>add_edges_to_tree\<close> populates is taken as given. The sensors are
  laid out, the ray count is asserted, the unified trace runs and the sky is accumulated.
  The outer option is \<open>None\<close> when a ray's loop does not end.
\<close>

definition ray_trace :: "Tracer \<Rightarrow> (int \<times> int \<rightharpoonup> real) \<Rightarrow> (error + Tracer) option" where
  "ray_trace T tree =
     (case repeat_arange (map sensor_ct (edges T)) of
        Inl err \<Rightarrow> Some (Inl err)
      | Inr sensor_parent_ix \<Rightarrow>
          if n_ray_steps T \<le> 0 then Some (Inl FloatToIntError)
          else
            let T1 = T\<lparr> nodes := tree \<rparr>;
                xys0 = map (\<lambda>(i, p). init_xy_sensor T1 i p) (enumerate 0 sensor_parent_ix)
            in if xys0 = [] then Some (Inl IndexError)
               else
                 let xyz_cts = map xyz_sensor_ct xys0;
                     xyz_ends = cumsum xyz_cts;
                     xyz_starts = 0 # butlast xyz_ends;
                     xys = map (\<lambda>(x, st). x\<lparr> xyz_sensor_start_ix := st \<rparr>) (zip xys0 xyz_starts)
                 in (case repeat_arange xyz_cts of
                      Inl err \<Rightarrow> Some (Inl err)
                    | Inr xy_sensor_parent_ix \<Rightarrow>
                        let xyzs = map (\<lambda>(i, p). init_xyz_sensor T1 xys i p)
                                     (enumerate 0 xy_sensor_parent_ix);
                            T2 = T1\<lparr> xy_sensors := xys, xyz_sensors := xyzs,
                                    xyz_views := {}, hits := (\<lambda>k. []) \<rparr>;
                            xyz_ray_ct = int (length xyzs) * int (n_azimuths T)
                                           * int (n_elevations T)
                        in if \<not> xyz_ray_ct < 2 ^ 32 then Some (Inl TooManyRays)
                           else
                             (case xyz_trace_unified T2 of
                                None \<Rightarrow> None
                              | Some T3 \<Rightarrow>
                                  Some (Inr (timestep_sky
                                    (T3\<lparr> xyz_sensor_timesteps := (\<lambda>s t. 0) \<rparr>))))))"

text \<open>The total ray count that \<^verbatim>\<open>ray_trace\<close> asserts to be below \<open>2 ^ 32\<close>.\<close>

definition xyz_ray_ct :: "Tracer \<Rightarrow> (error + int)" where
  "xyz_ray_ct T =
     (case repeat_arange (map sensor_ct (edges T)) of
        Inl err \<Rightarrow> Inl err
      | Inr sensor_parent_ix \<Rightarrow>
          (case repeat_arange
                  (map (\<lambda>p. edge_n_floors (edges T ! p)) sensor_parent_ix) of
             Inl err \<Rightarrow> Inl err
           | Inr xy_sensor_parent_ix \<Rightarrow>
               Inr (int (length xy_sensor_parent_ix) * int (n_azimuths T)
                      * int (n_elevations T))))"

section \<open>Orientation weights: \<^verbatim>\<open>Tracer.compute_edge_orientation_weights\<close>\<close>

text \<open>
  Sums and quotients of floats that may not be finite: \<open>None\<close> absorbs, and a zero divisor
  gives \<open>None\<close>.
\<close>

definition fadd :: "real option \<Rightarrow> real option \<Rightarrow> real option" where
  "fadd a b = (case a of None \<Rightarrow> None | Some x \<Rightarrow> (case b of None \<Rightarrow> None | Some y \<Rightarrow> Some (x + y)))"

definition fdiv_opt :: "real option \<Rightarrow> real option \<Rightarrow> real option" where
  "fdiv_opt a b = (case a of None \<Rightarrow> None | Some x \<Rightarrow> (case b of None \<Rightarrow> None | Some y \<Rightarrow> fdiv x y))"

fun fold_err :: "('s \<Rightarrow> 'i \<Rightarrow> error + 's) \<Rightarrow> 'i list \<Rightarrow> 's \<Rightarrow> error + 's" where
  "fold_err body [] st = Inr st"
| "fold_err body (x # xs) st =
     (case body st x of Inl err \<Rightarrow> Inl err | Inr st' \<Rightarrow> fold_err body xs st')"

text \<open>
  The weights of an edge in the four orientations \<open>(north, east, south, west)\<close> from its
  normal angle in \<open>[0, 2\<pi>]\<close>; \<open>None\<close> is the branch \<^verbatim>\<open>assert False\<close>.
\<close>

definition orientation_weights :: "real \<Rightarrow> (real \<times> real \<times> real \<times> real) option" where
  "orientation_weights theta =
     (if theta \<ge> 0 \<and> theta \<le> pi / 2 then
        (let north = theta / (pi / 2) in Some (north, 1 - north, 0, 0))
      else if theta > pi / 2 \<and> theta \<le> pi then
        (let north = (pi - theta) / (pi / 2) in Some (north, 0, 0, 1 - north))
      else if theta > pi \<and> theta \<le> 3 * pi / 2 then
        (let south = (theta - pi) / (pi / 2) in Some (0, 0, south, 1 - south))
      else if theta > 3 * pi / 2 \<and> theta \<le> 2 * pi then
        (let south = (2 * pi - theta) / (pi / 2) in Some (0, 1 - south, south, 0))
      else None)"

text \<open>
  The kernel has four parallel loops. Each iteration of a loop over the edges reads and
  writes its own edge and adds atomically onto its building, so a loop is a map over the
  edges together with a fold of the additions over the buildings.

  First loop: the qualified length of the edge (zero below 2 m) and the sums of the
  orientation weights and of the qualified lengths per building.
\<close>

definition qualified_edge_length :: "Edge \<Rightarrow> real" where
  "qualified_edge_length e =
     (let l = sqrt ((fst (edge_start e) - fst (edge_end e))\<^sup>2
                    + (snd (edge_start e) - snd (edge_end e))\<^sup>2)
      in if l < 2 then 0 else l)"

definition pass1_edge :: "Edge \<Rightarrow> Edge" where
  "pass1_edge e = e\<lparr> qualified_length := qualified_edge_length e \<rparr>"

definition pass1_acc :: "Building list \<Rightarrow> Edge \<Rightarrow> error + Building list" where
  "pass1_acc bs e =
     (let b = building_id e;
          theta = py_fmod (normal_theta e + 2 * pi) (2 * pi);
          ql = qualified_edge_length e
      in case orientation_weights theta of
           None \<Rightarrow> Inl AssertFalse
         | Some (north, east, south, west) \<Rightarrow>
             Inr (bs[b := (bs ! b)
                    \<lparr> north_weight := fadd (north_weight (bs ! b)) (Some (north * ql)),
                      east_weight := fadd (east_weight (bs ! b)) (Some (east * ql)),
                      south_weight := fadd (south_weight (bs ! b)) (Some (south * ql)),
                      west_weight := fadd (west_weight (bs ! b)) (Some (west * ql)),
                      qualified_perim_length := qualified_perim_length (bs ! b) + ql \<rparr>]))"

text \<open>
  Second loop: the weight of the edge in its building's qualified perimeter, set to zero
  below 1.5 percent (a quotient that is not a number fails the comparison and stays), and
  the sum of the weights per building.
\<close>

definition pass2_edge :: "Building list \<Rightarrow> Edge \<Rightarrow> Edge" where
  "pass2_edge bs e =
     (let building_perim_length = qualified_perim_length (bs ! building_id e);
          w = fdiv (qualified_length e) building_perim_length
      in e\<lparr> weight := map_option (\<lambda>x. if x < 0.015 then 0 else x) w \<rparr>)"

definition pass2_acc :: "Edge \<Rightarrow> Building list \<Rightarrow> Building list" where
  "pass2_acc e bs =
     (let b = building_id e
      in bs[b := (bs ! b)
              \<lparr> qualified_edge_weight_sum := fadd (qualified_edge_weight_sum (bs ! b)) (weight e) \<rparr>])"

text \<open>Third loop: the weights renormalized by the sum of the building.\<close>

definition pass3_edge :: "Building list \<Rightarrow> Edge \<Rightarrow> Edge" where
  "pass3_edge bs e =
     e\<lparr> weight := fdiv_opt (weight e) (qualified_edge_weight_sum (bs ! building_id e)) \<rparr>"

text \<open>Fourth loop, over the buildings: the four orientation weights divided by their sum.\<close>

definition pass4_building :: "Building \<Rightarrow> Building" where
  "pass4_building b =
     (let weight_sum = fadd (fadd (fadd (north_weight b) (east_weight b)) (south_weight b))
                         (west_weight b)
      in b\<lparr> north_weight := fdiv_opt (north_weight b) weight_sum,
            east_weight := fdiv_opt (east_weight b) weight_sum,
            south_weight := fdiv_opt (south_weight b) weight_sum,
            west_weight := fdiv_opt (west_weight b) weight_sum \<rparr>)"

definition compute_edge_orientation_weights ::
  "Edge list \<times> Building list \<Rightarrow> error + (Edge list \<times> Building list)" where
  "compute_edge_orientation_weights st =
     (case st of (es, bs) \<Rightarrow>
        (case fold_err pass1_acc es bs of
           Inl err \<Rightarrow> Inl err
         | Inr bs1 \<Rightarrow>
             let es1 = map pass1_edge es;
                 es2 = map (pass2_edge bs1) es1;
                 bs2 = fold pass2_acc es2 bs1;
                 es3 = map (pass3_edge bs2) es2;
                 bs4 = map pass4_building bs2
             in Inr (es3, bs4)))"

section \<open>Concrete scenes\<close>

text \<open>
  A unit square wound counter-clockwise and a 1.5 m by 3 m rectangle, each extracted with
  \<open>sensor_inset = 0.5\<close>, \<open>sensor_spacing = 1\<close>, \<open>f2f_height = 3\<close> and 24 sky azimuths.
\<close>

definition unit_square :: Footprint where
  "unit_square = \<lparr> fp_rings = [[(0, 0), (1, 0), (1, 1), (0, 1), (0, 0)]], fp_height = 10,
       fp_archetype = 0 \<rparr>"

definition unit_square_edges :: "Edge list" where
  "unit_square_edges = fst (projr (extract_flat_edge_list (1 / 2) 1 3 (pi / 12) [unit_square]))"

definition small_rect :: Footprint where
  "small_rect = \<lparr> fp_rings = [[(0, 0), (3 / 2, 0), (3 / 2, 3), (0, 3), (0, 0)]], fp_height = 10,
       fp_archetype = 0 \<rparr>"

definition small_rect_edges :: "Edge list" where
  "small_rect_edges = fst (projr (extract_flat_edge_list (1 / 2) 1 3 (pi / 12) [small_rect]))"

text \<open>
  A sky matrix of subdivision factor 1: the ground, the 144 patches of the seven bands and
  the zenith, 146 rows of 8760 hours. Row \<open>p\<close> holds \<open>p\<close> in its three channels at every
  hour, so no two rows are equal.
\<close>

definition tregenza_rows :: "real list list" where
  "tregenza_rows = map (\<lambda>p. replicate n_timesteps (real p)) [0..<146]"

definition tregenza_mtx :: "(real \<times> real \<times> real) list" where
  "tregenza_mtx = concat (map (map (\<lambda>v. (v, v, v))) tregenza_rows)"

text \<open>
  The constructor's arguments for the unit square under a sky of 24 azimuths and subdivision
  factor 1, and the tracer it builds.
\<close>

definition square_args :: TracerArgs where
  "square_args =
     \<lparr> arg_sky = sky_attrs 1 24, arg_gdf = [unit_square],
       has_height_col = True, has_id_col = True, has_archetype_col = True,
       arg_node_width = 1, arg_sensor_inset = 1 / 2, arg_sensor_normal_offset = 3 / 2,
       arg_sensor_spacing = 1, arg_f2f_height = 3, arg_max_ray_length = 400,
       arg_ray_step_size = 1, arg_steps_per_unroll_loop = 100 \<rparr>"

definition square_tracer :: Tracer where
  "square_tracer = projr (tracer_init square_args)"

text \<open>
  A scene of 20 m by 20 m with one wall from \<open>(5, 7)\<close> to \<open>(5, 5)\<close> of a 3 m building, whose
  normal points east, its two sensors at \<open>(6.5, 6.5)\<close> and \<open>(6.5, 5.5)\<close> on the ground floor,
  and a 100 m neighbour in the cells \<open>(8, 6)\<close> and \<open>(9, 5)\<close>. The sky has two azimuths, so the tracer casts
  one azimuth per sensor, due east, over the seven elevations of subdivision factor 1. Rays
  are 3 m long in steps of 1 m, unrolled in blocks of 2 steps. Every sky patch has normal
  irradiance 1 at every hour. The crowded scene is the same under a sky of \<open>2 ^ 30\<close>
  azimuths.
\<close>

definition unit_sky :: Sky where
  "unit_sky =
     (sky_attrs 1 2)
       \<lparr> normal_irradiance := replicate 7 (replicate 2 (replicate n_timesteps 1)) \<rparr>"

definition ray_edge :: Edge where
  "ray_edge =
     \<lparr> building_id = 0, edge_start = (5, 7), edge_end = (5, 5), slopevec = (0, - 1),
       slope = None, normal = (1, 0), normal_theta = 0, az_start_angle = 0,
       orientation = 0, edge_height = 3, weight = Some 0, qualified_length = 0,
       edge_n_floors = 1, sensor_start_ix = 0, sensor_end_ix = 2, sensor_ct = 2 \<rparr>"

definition ray_scene :: Tracer where
  "ray_scene =
     \<lparr> sky = unit_sky,
       node_width = 1, sensor_inset = 1 / 2, sensor_normal_offset = 3 / 2,
       sensor_spacing = 1, f2f_height = 3, max_ray_length = 3, ray_step_size = 1,
       n_ray_steps = 3, steps_per_unroll_loop = 2, n_loops_to_unroll = 2,
       width = 20, scene_length = 20, depth = 5,
       n_azimuths = 1, azimuth_inc = pi, azimuths = [0],
       n_elevations = 7, elevation_inc = elevational_aperture (sky_attrs 1 2),
       elevations = elevation_centers (sky_attrs 1 2),
       buildings = [], edges = [ray_edge],
       nodes = [(4, 5) \<mapsto> 3, (5, 5) \<mapsto> 3, (4, 6) \<mapsto> 3, (5, 6) \<mapsto> 3,
                (8, 6) \<mapsto> 100, (9, 5) \<mapsto> 100],
       xy_sensors =
         [\<lparr> hit_count = 0, loc = (13 / 2, 13 / 2), parent_edge_id = 0,
            xyz_sensor_start_ix = 0, xyz_sensor_ct = 1 \<rparr>,
          \<lparr> hit_count = 0, loc = (13 / 2, 11 / 2), parent_edge_id = 0,
            xyz_sensor_start_ix = 1, xyz_sensor_ct = 1 \<rparr>],
       xyz_sensors =
         [\<lparr> xyz_height = 0, rad = 0, parent_sensor_id = 0 \<rparr>,
          \<lparr> xyz_height = 0, rad = 0, parent_sensor_id = 1 \<rparr>],
       hits = (\<lambda>k. []), xyz_views = {}, xyz_sensor_timesteps = (\<lambda>s t. 0) \<rparr>"

text \<open>
  A slab of 66 m by 2 m and 3 m high whose outline has a vertex every 2 m: 33 edges along the
  bottom, one on the right, 33 along the top and one on the left, 68 edges of 2 m each, with
  the normals that the extraction stores; and its building with cleared accumulators.
\<close>

definition slab_edge :: "vec2 \<Rightarrow> vec2 \<Rightarrow> vec2 \<Rightarrow> real \<Rightarrow> Edge" where
  "slab_edge s e v theta =
     \<lparr> building_id = 0, edge_start = s, edge_end = e, slopevec = v,
       slope = fdiv (snd v) (fst v), normal = (- snd v, fst v), normal_theta = theta,
       az_start_angle = theta - pi / 2 + pi / 24, orientation = 0, edge_height = 3,
       weight = Some 0, qualified_length = 0, edge_n_floors = 1,
       sensor_start_ix = 0, sensor_end_ix = 0, sensor_ct = 0 \<rparr>"

definition slab_edges :: "Edge list" where
  "slab_edges =
     map (\<lambda>i. slab_edge (5 + 2 * real i, 5) (7 + 2 * real i, 5) (1, 0) (pi / 2)) [0..<33]
     @ [slab_edge (71, 5) (71, 7) (0, 1) pi]
     @ map (\<lambda>i. slab_edge (71 - 2 * real i, 7) (69 - 2 * real i, 7) (- 1, 0) (- (pi / 2))) [0..<33]
     @ [slab_edge (5, 7) (5, 5) (0, - 1) 0]"

definition slab_buildings :: "Building list" where
  "slab_buildings =
     [\<lparr> bldg_height = 3, bldg_n_floors = 0, archetype_ix = 0, edge_start_ix = 0,
        edge_end_ix = 68, edge_ct = 68, north_weight = Some 0, east_weight = Some 0,
        south_weight = Some 0, west_weight = Some 0, qualified_perim_length = 0,
        qualified_edge_weight_sum = Some 0 \<rparr>]"

definition slab_result :: "Edge list \<times> Building list" where
  "slab_result = projr (compute_edge_orientation_weights (slab_edges, slab_buildings))"

definition traced_scene :: Tracer where
  "traced_scene = the (xyz_trace_unified ray_scene)"

definition crowded_scene :: Tracer where
  "crowded_scene = ray_scene\<lparr> n_azimuths := 2 ^ 29 \<rparr>"

definition wide_node_args :: TracerArgs where
  "wide_node_args = square_args\<lparr> arg_node_width := 2 \<rparr>"

section \<open>Properties of the scene builder\<close>

lemma edge_normal_eq: "edge_normal v = (- snd v, fst v)"
  by (simp add: edge_normal_def cross3_def)

lemma norm2_edge_normal: "norm2 (edge_normal v) = norm2 v"
  by (simp add: edge_normal_eq norm2_def add.commute)

lemma unitize_norm: "v \<noteq> (0, 0) \<Longrightarrow> norm2 (unitize v) = 1"
proof -
  assume nz: "v \<noteq> (0, 0)"
  obtain a b where v: "v = (a, b)" by (cases v)
  have ab: "a \<noteq> 0 \<or> b \<noteq> 0" using nz v by simp
  then have pos: "0 < a\<^sup>2 + b\<^sup>2"
    by (simp add: sum_power2_gt_zero_iff)
  have "(a / sqrt (a\<^sup>2 + b\<^sup>2))\<^sup>2 + (b / sqrt (a\<^sup>2 + b\<^sup>2))\<^sup>2 = (a\<^sup>2 + b\<^sup>2) / (a\<^sup>2 + b\<^sup>2)"
    using pos ab by (auto simp add: power_divide add_divide_distrib[symmetric])
  also have "\<dots> = 1" using ab by auto
  finally show ?thesis by (simp add: v unitize_def norm2_def)
qed

lemma ring_rows_mem:
  "(s, e, rr, n) \<in> set (ring_rows coords) \<Longrightarrow> rr = unitize (vsub e s) \<and> n = edge_normal rr"
  by (auto simp: ring_rows_def Let_def)

lemma flat_rows_mem:
  "(i, h, nf, s, e, rr, n) \<in> set (flat_rows f gdf) \<Longrightarrow> rr = unitize (vsub e s) \<and> n = edge_normal rr"
  by (auto simp: flat_rows_def footprint_rows_def dest: ring_rows_mem)

lemma update_edge_frame:
  "slopevec (update_edge inc e) = slopevec e" "normal (update_edge inc e) = normal e"
  "edge_start (update_edge inc e) = edge_start e" "edge_end (update_edge inc e) = edge_end e"
  "sensor_ct (update_edge inc e) = sensor_ct e"
  by (simp_all add: update_edge_def Let_def)

lemma mk_edge_fields:
  "slopevec (mk_edge (i, h, nf, s, e, rr, n) (a, b, c)) = rr"
  "normal (mk_edge (i, h, nf, s, e, rr, n) (a, b, c)) = n"
  "edge_start (mk_edge (i, h, nf, s, e, rr, n) (a, b, c)) = s"
  "edge_end (mk_edge (i, h, nf, s, e, rr, n) (a, b, c)) = e"
  "sensor_ct (mk_edge (i, h, nf, s, e, rr, n) (a, b, c)) = c"
  by (simp_all add: mk_edge_def)

lemma extract_edges_mem:
  assumes "extract_flat_edge_list si ss f inc gdf = Inr (es, bs)" "x \<in> set es"
  shows "\<exists>i h nf s e rr n a b. (i, h, nf, s, e, rr, n) \<in> set (flat_rows f gdf) \<and>
           x = update_edge inc (mk_edge (i, h, nf, s, e, rr, n) (a, b, sensor_count si ss s e))"
proof -
  let ?rows = "flat_rows f gdf"
  let ?cts = "map (\<lambda>(i, h, nf, s, e, rr, n). sensor_count si ss s e) ?rows"
  let ?ends = "cumsum ?cts"
  let ?starts = "0 # butlast ?ends"
  from assms have "x \<in> set (map (\<lambda>(row, sens). update_edge inc (mk_edge row sens))
                     (zip ?rows (zip ?starts (zip ?ends ?cts))))"
    by (auto simp: extract_flat_edge_list_def Let_def split: if_splits)
  then obtain row a b c where mem: "(row, a, b, c) \<in> set (zip ?rows (zip ?starts (zip ?ends ?cts)))"
    and x: "x = update_edge inc (mk_edge row (a, b, c))"
    by auto
  from mem obtain k where k: "k < length ?rows" "?rows ! k = row"
      "k < length (zip ?starts (zip ?ends ?cts))" "zip ?starts (zip ?ends ?cts) ! k = (a, b, c)"
    by (auto simp: in_set_zip)
  from k(3) have kl: "k < length ?starts" "k < length ?ends" "k < length ?cts" by auto
  from k(4) kl have "?cts ! k = c" by simp
  with k(1,2) have c: "c = (case row of (i, h, nf, s, e, rr, n) \<Rightarrow> sensor_count si ss s e)"
    by (auto split: prod.splits)
  obtain i h nf s e rr n where row: "row = (i, h, nf, s, e, rr, n)" by (cases row)
  from k(1,2) have "row \<in> set ?rows" by auto
  then have m: "(i, h, nf, s, e, rr, n) \<in> set ?rows" by (simp add: row)
  have "x = update_edge inc (mk_edge (i, h, nf, s, e, rr, n) (a, b, sensor_count si ss s e))"
    using x c by (simp add: row)
  with m show ?thesis by blast
qed

lemma atan2_unit:
  assumes "norm2 (x, y) = 1"
  shows "cos (atan2 y x) = x \<and> sin (atan2 y x) = y"
proof -
  from assms have "sqrt (x\<^sup>2 + y\<^sup>2) = 1" by (simp add: norm2_def)
  then have u: "x\<^sup>2 + y\<^sup>2 = 1" by (simp add: real_sqrt_eq_1_iff)
  consider "0 < x" | "x < 0" | "x = 0" by linarith
  then show ?thesis
  proof cases
    case 1
    have "1 + (y / x)\<^sup>2 = (x\<^sup>2 + y\<^sup>2) / x\<^sup>2"
      using 1 by (simp add: power_divide field_simps)
    then have "1 + (y / x)\<^sup>2 = 1 / x\<^sup>2" using u by simp
    then have s: "sqrt (1 + (y / x)\<^sup>2) = 1 / x"
      using 1 by (simp add: real_sqrt_divide)
    have c: "cos (arctan (y / x)) = x" using 1 by (simp add: cos_arctan s)
    have "sin (arctan (y / x)) = y" using 1 by (simp add: sin_arctan s)
    with c 1 show ?thesis by (simp add: atan2_def)
  next
    case 2
    have "1 + (y / x)\<^sup>2 = (x\<^sup>2 + y\<^sup>2) / x\<^sup>2"
      using 2 by (simp add: power_divide field_simps)
    then have "1 + (y / x)\<^sup>2 = 1 / x\<^sup>2" using u by simp
    then have s: "sqrt (1 + (y / x)\<^sup>2) = - (1 / x)"
      using 2 by (simp add: real_sqrt_divide)
    have c: "cos (arctan (y / x)) = - x" using 2 by (simp add: cos_arctan s)
    have "sin (arctan (y / x)) = - y" using 2 by (simp add: sin_arctan s)
    with c 2 show ?thesis by (simp add: atan2_def)
  next
    case 3
    with u have "y\<^sup>2 = 1" by simp
    then have "y = 1 \<or> y = - 1" by (simp add: power2_eq_1_iff)
    with 3 show ?thesis by (auto simp: atan2_def)
  qed
qed

lemma update_edge_theta:
  "normal_theta (update_edge inc e) = atan2 (snd (normal e)) (fst (normal e))"
  by (simp add: update_edge_def Let_def)

lemma extract_edges_dir:
  assumes "extract_flat_edge_list si ss f inc gdf = Inr (es, bs)" and "x \<in> set es"
  shows "slopevec x = unitize (vsub (edge_end x) (edge_start x))"
    and "normal x = edge_normal (slopevec x)"
    and "normal_theta x = atan2 (snd (normal x)) (fst (normal x))"
proof -
  from extract_edges_mem[OF assms] obtain i h nf s e rr n a b where
    mem: "(i, h, nf, s, e, rr, n) \<in> set (flat_rows f gdf)" and
    x: "x = update_edge inc (mk_edge (i, h, nf, s, e, rr, n) (a, b, sensor_count si ss s e))"
    by blast
  from flat_rows_mem[OF mem] have rr: "rr = unitize (vsub e s)" and n: "n = edge_normal rr"
    by simp_all
  have f: "slopevec x = rr" "normal x = n" "edge_start x = s" "edge_end x = e"
    by (simp_all add: x update_edge_frame mk_edge_fields)
  show "slopevec x = unitize (vsub (edge_end x) (edge_start x))" by (simp add: f rr)
  show "normal x = edge_normal (slopevec x)" by (simp add: f n)
  show "normal_theta x = atan2 (snd (normal x)) (fst (normal x))"
    by (simp add: x update_edge_theta update_edge_frame)
qed

lemma extract_edges_unit_normal:
  assumes "extract_flat_edge_list si ss f inc gdf = Inr (es, bs)" and "x \<in> set es"
    and "edge_start x \<noteq> edge_end x"
  shows "norm2 (normal x) = 1"
proof -
  note d = extract_edges_dir[OF assms(1,2)]
  from assms(3) have "vsub (edge_end x) (edge_start x) \<noteq> (0, 0)"
    by (auto simp: vsub_def prod_eq_iff)
  then have "norm2 (slopevec x) = 1" by (simp add: d(1) unitize_norm)
  then show ?thesis by (simp add: d(2) norm2_edge_normal)
qed

lemma unit_square_edges_dirs:
  "map (\<lambda>x. (edge_start x, edge_end x, slopevec x, normal x)) unit_square_edges
     = [((0, 0), (1, 0), (1, 0), (0, 1)),
        ((1, 0), (1, 1), (0, 1), (- 1, 0)),
        ((1, 1), (0, 1), (- 1, 0), (0, - 1)),
        ((0, 1), (0, 0), (0, - 1), (1, 0))]"
  by (simp add: unit_square_edges_def extract_flat_edge_list_def unit_square_def Let_def
       flat_rows_def footprint_rows_def ring_rows_def update_edge_frame mk_edge_def
       unitize_def vsub_def norm2_def edge_normal_eq cumsum_def)

text \<open>
  Claim C3 fails on the unit square wound counter-clockwise. The claim, and the comment of
  the source (the cross product of the slope and the k unit vector, which points to the
  outside), give the normal \<open>(slope_y, - slope_x)\<close>; the code computes
  \<^verbatim>\<open>np.cross(up, cross_test)\<close>, the opposite vector \<open>(- slope_y, slope_x)\<close>. On each of the four
  edges the stored normal is the negation of the claimed one and points into the square: the
  test point of the commented orientation check, the middle of the edge moved by \<open>0.1\<close>
  along the stored normal, has both coordinates strictly between 0 and 1.
\<close>

theorem stored_normal_points_inward:
  "map (\<lambda>x. (edge_start x, edge_end x)) unit_square_edges
     = [((0, 0), (1, 0)), ((1, 0), (1, 1)), ((1, 1), (0, 1)), ((0, 1), (0, 0))] \<and>
   map slopevec unit_square_edges = [(1, 0), (0, 1), (- 1, 0), (0, - 1)] \<and>
   map normal unit_square_edges = [(0, 1), (- 1, 0), (0, - 1), (1, 0)] \<and>
   map (\<lambda>x. (snd (slopevec x), - fst (slopevec x))) unit_square_edges
     = [(0, - 1), (1, 0), (0, 1), (- 1, 0)] \<and>
   normal (hd unit_square_edges)
     \<noteq> (snd (slopevec (hd unit_square_edges)), - fst (slopevec (hd unit_square_edges))) \<and>
   map normal_test_point unit_square_edges
     = [(1 / 2, 1 / 10), (9 / 10, 1 / 2), (1 / 2, 9 / 10), (1 / 10, 1 / 2)] \<and>
   list_all (\<lambda>p. 0 < fst p \<and> fst p < 1 \<and> 0 < snd p \<and> snd p < 1)
     (map normal_test_point unit_square_edges)"
proof -
  have d: "map (\<lambda>x. (edge_start x, edge_end x, slopevec x, normal x)) unit_square_edges
     = [((0, 0), (1, 0), (1, 0), (0, 1)),
        ((1, 0), (1, 1), (0, 1), (- 1, 0)),
        ((1, 1), (0, 1), (- 1, 0), (0, - 1)),
        ((0, 1), (0, 0), (0, - 1), (1, 0))]" by (rule unit_square_edges_dirs)
  then obtain e0 e1 e2 e3 where es: "unit_square_edges = [e0, e1, e2, e3]"
    by (auto simp: map_eq_Cons_conv)
  from d show ?thesis
    by (simp add: es normal_test_point_def vadd_def smul_def)
qed

text \<open>
  Claim C4, as amended. With \<open>q = (L - 2 * sensor_inset) / sensor_spacing\<close> for an edge of
  length \<open>L\<close>, the allocated sensor count is \<open>floor q + 1\<close> when \<open>q \<ge> 1\<close> and \<open>0\<close>
  otherwise; in particular an edge with \<open>0 \<le> q < 1\<close> gets no sensor.
\<close>

theorem sensor_count_allocation:
  assumes "extract_flat_edge_list si ss f inc gdf = Inr (es, bs)" and "x \<in> set es"
    and "ss \<noteq> 0"
  shows "sensor_ct x =
           (if 1 \<le> (norm2 (vsub (edge_start x) (edge_end x)) - 2 * si) / ss
            then \<lfloor>(norm2 (vsub (edge_start x) (edge_end x)) - 2 * si) / ss\<rfloor> + 1 else 0) \<and>
         (0 \<le> (norm2 (vsub (edge_start x) (edge_end x)) - 2 * si) / ss \<and>
          (norm2 (vsub (edge_start x) (edge_end x)) - 2 * si) / ss < 1 \<longrightarrow> sensor_ct x = 0)"
proof -
  from extract_edges_mem[OF assms(1,2)] obtain i h nf s e rr n a b where
    x: "x = update_edge inc (mk_edge (i, h, nf, s, e, rr, n) (a, b, sensor_count si ss s e))"
    by blast
  have f: "edge_start x = s" "edge_end x = e" "sensor_ct x = sensor_count si ss s e"
    by (simp_all add: x update_edge_frame mk_edge_fields)
  show ?thesis
    by (simp add: f sensor_count_def Let_def one_add_floor add.commute)
qed

lemma small_rect_extract:
  "\<exists>bs. extract_flat_edge_list (1 / 2) 1 3 (pi / 12) [small_rect] = Inr (small_rect_edges, bs)"
  by (simp add: small_rect_edges_def extract_flat_edge_list_def small_rect_def Let_def
       flat_rows_def footprint_rows_def ring_rows_def)

lemma small_rect_hd:
  "edge_start (hd small_rect_edges) = (0, 0) \<and> edge_end (hd small_rect_edges) = (3 / 2, 0) \<and>
   sensor_ct (hd small_rect_edges) = 0"
  by (simp add: small_rect_edges_def extract_flat_edge_list_def small_rect_def Let_def
       flat_rows_def footprint_rows_def ring_rows_def update_edge_frame mk_edge_def
       vsub_def norm2_def cumsum_def sensor_count_def)

text \<open>
  Claim C4 as stated fails: the 1.5 m edge of the small rectangle has \<open>q = 0.5\<close>, so
  \<open>floor q + 1 = 1\<close>, and the source allocates no sensor to it.
\<close>

theorem sensor_count_counterexample:
  "(norm2 (vsub (edge_start (hd small_rect_edges)) (edge_end (hd small_rect_edges)))
      - 2 * (1 / 2)) / 1 = 1 / 2 \<and>
   sensor_ct (hd small_rect_edges) = 0 \<and>
   sensor_ct (hd small_rect_edges) \<noteq> \<lfloor>(1 / 2 :: real)\<rfloor> + 1"
  using small_rect_hd by (simp add: vsub_def norm2_def)

text \<open>
  The amended claim C4 on the small rectangle: the 3 m edge has \<open>q = 2\<close> and three sensors.
\<close>

theorem sensor_count_witness:
  "hd small_rect_edges \<in> set small_rect_edges \<and> (1 :: real) \<noteq> 0 \<and>
   sensor_ct (hd small_rect_edges) = 0 \<and>
   sensor_ct (hd (tl small_rect_edges)) = 3"
proof -
  obtain bs where ex:
    "extract_flat_edge_list (1 / 2) 1 3 (pi / 12) [small_rect] = Inr (small_rect_edges, bs)"
    using small_rect_extract by blast
  have fields: "edge_start (hd (tl small_rect_edges)) = (3 / 2, 0) \<and>
        edge_end (hd (tl small_rect_edges)) = (3 / 2, 3) \<and>
        hd small_rect_edges \<in> set small_rect_edges \<and>
        hd (tl small_rect_edges) \<in> set small_rect_edges"
    by (simp add: small_rect_edges_def extract_flat_edge_list_def small_rect_def Let_def
         flat_rows_def footprint_rows_def ring_rows_def update_edge_frame mk_edge_def
         cumsum_def)
  then have mem: "hd (tl small_rect_edges) \<in> set small_rect_edges" by simp
  have "sensor_ct (hd (tl small_rect_edges)) = 3"
    using sensor_count_allocation[OF ex mem] fields by (simp add: vsub_def norm2_def)
  with fields small_rect_hd show ?thesis by simp
qed

section \<open>Properties of the sky model\<close>

lemma length_patches_per_elevation: "length (patches_per_elevation mf) = 7 * mf"
  by (simp add: patches_per_elevation_def base_patches_per_elevation_def)

lemma reshape_groups_one: "length xs = n \<Longrightarrow> reshape_groups n (Suc 0) xs = map (\<lambda>r. [r]) xs"
proof (induction n arbitrary: xs)
  case 0
  then show ?case by simp
next
  case (Suc n)
  then obtain y ys where xs: "xs = y # ys" by (cases xs) auto
  with Suc show ?case by simp
qed

lemma mean_group_single: "length r = n_timesteps \<Longrightarrow> mean_group [r] = r"
  by (simp add: mean_group_def map_nth[symmetric] del: map_nth) (metis map_nth)

lemma concat_replicate_one: "concat (map (replicate (Suc 0)) xs) = xs"
  by (induction xs) auto

lemma resample_band_same:
  assumes "length band = n" "0 < n" "\<forall>r \<in> set band. length r = n_timesteps"
  shows "resample_band n band = Inr band"
proof -
  have "map mean_group (map (\<lambda>r. [r]) band) = band"
    using assms(3) by (induction band) (auto simp: mean_group_single)
  then show ?thesis
    using assms(1,2)
    by (simp add: resample_band_def Let_def concat_replicate_one reshape_groups_one
          del: map_map)
qed

lemma resample_bands_same:
  assumes "0 < n" "\<forall>b \<in> set bands. length b = n \<and> (\<forall>r \<in> set b. length r = n_timesteps)"
  shows "resample_bands n bands = Inr bands"
  using assms by (induction bands) (simp_all add: resample_band_same)

lemma length_reshape_groups: "length (reshape_groups n g xs) = n"
  by (induction n arbitrary: xs) auto

lemma reshape_groups_rows:
  "length xs = n * g \<Longrightarrow> r \<in> set (reshape_groups n g xs) \<Longrightarrow> length r = g"
proof (induction n arbitrary: xs)
  case 0
  then show ?case by simp
next
  case (Suc n)
  from Suc.prems(1) have l: "length (drop g xs) = n * g" by simp
  from Suc.prems(1) have t: "length (take g xs) = g" by simp
  from Suc.prems(2) have "r = take g xs \<or> r \<in> set (reshape_groups n g (drop g xs))" by simp
  then show ?case using Suc.IH[OF l] t by auto
qed

lemma reshape_groups_concat:
  "\<forall>r \<in> set rows. length r = g \<Longrightarrow> reshape_groups (length rows) g (concat rows) = rows"
  by (induction rows) auto

lemma length_band_slices: "length (band_slices ns rows) = length ns"
  by (induction ns arbitrary: rows) auto

lemma band_slices_nth:
  "sum_list ns \<le> length rows \<Longrightarrow> i < length ns \<Longrightarrow>
     length (band_slices ns rows ! i) = ns ! i \<and> set (band_slices ns rows ! i) \<subseteq> set rows"
proof (induction ns arbitrary: rows i)
  case Nil
  then show ?case by simp
next
  case (Cons n ns)
  show ?case
  proof (cases i)
    case 0
    with Cons.prems show ?thesis by (auto dest: in_set_takeD)
  next
    case (Suc j)
    from Cons.prems have a: "sum_list ns \<le> length (drop n rows)" by simp
    from Cons.prems Suc have b: "j < length ns" by simp
    from Cons.IH[OF a b] Suc show ?thesis by (auto dest: in_set_dropD)
  qed
qed

lemma resample_band_ok:
  "0 < n \<Longrightarrow> b \<noteq> [] \<Longrightarrow> \<exists>r. resample_band n b = Inr r"
  by (simp add: resample_band_def Let_def)

lemma resample_bands_nth:
  assumes "0 < n" "\<forall>b \<in> set bands. b \<noteq> []"
  shows "\<exists>rs. resample_bands n bands = Inr rs \<and> length rs = length bands \<and>
           (\<forall>i < length bands. resample_band n (bands ! i) = Inr (rs ! i))"
  using assms(2)
proof (induction bands)
  case Nil
  then show ?case by simp
next
  case (Cons b bands)
  from Cons.prems have "b \<noteq> []" by simp
  from resample_band_ok[OF assms(1) this] obtain r where r: "resample_band n b = Inr r" ..
  from Cons obtain rs where rs: "resample_bands n bands = Inr rs" "length rs = length bands"
      "\<forall>i < length bands. resample_band n (bands ! i) = Inr (rs ! i)" by auto
  have "\<forall>i < length (b # bands). resample_band n ((b # bands) ! i) = Inr ((r # rs) ! i)"
    using r rs(3) by (auto simp: nth_Cons split: nat.splits)
  then show ?case using r rs(1,2) by simp
qed

lemma patches_per_elevation_pos:
  "0 < mf \<Longrightarrow> b \<in> set (patches_per_elevation mf) \<Longrightarrow> 0 < b"
  by (auto simp: patches_per_elevation_def base_patches_per_elevation_def)

lemma converter_bands:
  assumes "0 < sky_n_azimuths self" "0 < mfactor self"
    and "length mtx = (sum_list (patches_per_elevation (mfactor self)) + 2) * n_timesteps"
  shows "\<exists>sky'. reinhart_to_meridinal_parallel_sky self mtx = Inr sky' \<and>
       length (radiance sky') = length (patches_per_elevation (mfactor self)) \<and>
       (\<forall>i < length (patches_per_elevation (mfactor self)).
          length (band_slices (patches_per_elevation (mfactor self))
               (butlast (tl (reshape_groups (length mtx div n_timesteps) n_timesteps
                   (map (\<lambda>(r, g, b). (r + g + b) / 3) mtx)))) ! i)
            = patches_per_elevation (mfactor self) ! i \<and>
          (\<forall>row \<in> set (band_slices (patches_per_elevation (mfactor self))
               (butlast (tl (reshape_groups (length mtx div n_timesteps) n_timesteps
                   (map (\<lambda>(r, g, b). (r + g + b) / 3) mtx)))) ! i). length row = n_timesteps) \<and>
          resample_band (sky_n_azimuths self)
            (band_slices (patches_per_elevation (mfactor self))
               (butlast (tl (reshape_groups (length mtx div n_timesteps) n_timesteps
                   (map (\<lambda>(r, g, b). (r + g + b) / 3) mtx)))) ! i)
          = Inr (radiance sky' ! i))"
proof -
  define ppe where "ppe = patches_per_elevation (mfactor self)"
  define vals where "vals = map (\<lambda>(r, g, b). (r + g + b) / 3) mtx"
  define rows where "rows = reshape_groups (length vals div n_timesteps) n_timesteps vals"
  define bands where "bands = band_slices ppe (butlast (tl rows))"
  have nt: "0 < n_timesteps" by (simp add: n_timesteps_def)
  have lv: "length vals = (sum_list ppe + 2) * n_timesteps"
    using assms(3) by (simp add: vals_def ppe_def)
  have dv: "length vals div n_timesteps = sum_list ppe + 2"
    using lv nt by simp
  have md: "length vals mod n_timesteps = 0" using lv by simp
  have lr: "length rows = sum_list ppe + 2"
    by (simp add: rows_def length_reshape_groups dv)
  have rl: "length r = n_timesteps" if "r \<in> set rows" for r
    using that lv unfolding rows_def dv by (rule reshape_groups_rows[rotated])
  have lp: "length (butlast (tl rows)) = sum_list ppe" using lr by simp
  have sub: "set (butlast (tl rows)) \<subseteq> set rows"
    by (metis in_set_butlastD list.set_sel(2) subsetI tl_Nil)
  have nel: "length ppe \<noteq> 0"
    using assms(2) by (simp add: ppe_def length_patches_per_elevation)
  have bi: "length (bands ! i) = ppe ! i \<and> set (bands ! i) \<subseteq> set (butlast (tl rows))"
    if "i < length ppe" for i
    unfolding bands_def using that lp by (intro band_slices_nth) simp_all
  have lb: "length bands = length ppe" by (simp add: bands_def length_band_slices)
  have ne: "\<forall>b \<in> set bands. b \<noteq> []"
  proof
    fix b assume "b \<in> set bands"
    then obtain i where i: "i < length bands" "bands ! i = b" by (auto simp: in_set_conv_nth)
    with lb have "ppe ! i \<in> set ppe" by simp
    from patches_per_elevation_pos[OF assms(2) this[unfolded ppe_def]]
    have "0 < ppe ! i" by (simp add: ppe_def)
    with bi[of i] i lb show "b \<noteq> []" by auto
  qed
  from resample_bands_nth[OF assms(1) ne] obtain rs where
    rs: "resample_bands (sky_n_azimuths self) bands = Inr rs" "length rs = length bands"
      "\<forall>i < length bands. resample_band (sky_n_azimuths self) (bands ! i) = Inr (rs ! i)"
    by blast
  have shape: "int (sum_list ppe) = int (length rows) - 2" using lr by simp
  have "\<exists>sky'. reinhart_to_meridinal_parallel_sky self mtx = Inr sky' \<and> radiance sky' = rs"
    unfolding reinhart_to_meridinal_parallel_sky_def Let_def
      ppe_def[symmetric] vals_def[symmetric] rows_def[symmetric] bands_def[symmetric]
    using md shape nel rs(1) by simp
  then obtain sky' where s: "reinhart_to_meridinal_parallel_sky self mtx = Inr sky'"
      "radiance sky' = rs" by blast
  have "\<forall>i < length ppe. length (bands ! i) = ppe ! i \<and>
          (\<forall>row \<in> set (bands ! i). length row = n_timesteps) \<and>
          resample_band (sky_n_azimuths self) (bands ! i) = Inr (radiance sky' ! i)"
    using bi sub rl rs(3) lb s(2) by (auto simp: subset_iff)
  with s rs(2) lb have "\<exists>sky'. reinhart_to_meridinal_parallel_sky self mtx = Inr sky' \<and>
       length (radiance sky') = length ppe \<and>
       (\<forall>i < length ppe. length (bands ! i) = ppe ! i \<and>
          (\<forall>row \<in> set (bands ! i). length row = n_timesteps) \<and>
          resample_band (sky_n_azimuths self) (bands ! i) = Inr (radiance sky' ! i))"
    by auto
  then show ?thesis
    unfolding bands_def rows_def vals_def ppe_def by simp
qed

text \<open>
  Claim C6. A band of \<open>n\<close> patches resampled to \<open>n\<close> azimuths is returned unchanged
  (\<open>lcm n n = n\<close>, each patch repeated once, groups of one row, mean of one row). The
  conversion of a sky matrix of the right shape succeeds, and every band whose native patch
  count is the sky's azimuth count has in \<^verbatim>\<open>self.radiance\<close> exactly the rows that the loop
  sliced for it. The loop over the bands is the identity on bands that all have \<open>n\<close>
  patches; the Tregenza layout has bands of \<open>30 m\<close> and of \<open>6 m\<close> patches, so in the
  conversion itself the identity holds band by band.
\<close>

theorem resample_same_count_identity:
  assumes "0 < n"
  shows "(length band = n \<and> (\<forall>r \<in> set band. length r = n_timesteps)
            \<longrightarrow> resample_band n band = Inr band) \<and>
         (sky_n_azimuths self = n \<and> 0 < mfactor self \<and>
          length mtx = (sum_list (patches_per_elevation (mfactor self)) + 2) * n_timesteps
            \<longrightarrow> (\<exists>sky'. reinhart_to_meridinal_parallel_sky self mtx = Inr sky' \<and>
                   length (radiance sky') = length (patches_per_elevation (mfactor self)) \<and>
                   (\<forall>i < length (patches_per_elevation (mfactor self)).
                      patches_per_elevation (mfactor self) ! i = n
                        \<longrightarrow> radiance sky' ! i = elevation_patches self mtx i))) \<and>
         ((\<forall>b \<in> set bands. length b = n \<and> (\<forall>r \<in> set b. length r = n_timesteps))
            \<longrightarrow> resample_bands n bands = Inr bands)"
proof -
  have 1: "length band = n \<and> (\<forall>r \<in> set band. length r = n_timesteps)
            \<longrightarrow> resample_band n band = Inr band"
    using assms resample_band_same by blast
  have 2: "sky_n_azimuths self = n \<and> 0 < mfactor self \<and>
          length mtx = (sum_list (patches_per_elevation (mfactor self)) + 2) * n_timesteps
            \<longrightarrow> (\<exists>sky'. reinhart_to_meridinal_parallel_sky self mtx = Inr sky' \<and>
                   length (radiance sky') = length (patches_per_elevation (mfactor self)) \<and>
                   (\<forall>i < length (patches_per_elevation (mfactor self)).
                      patches_per_elevation (mfactor self) ! i = n
                        \<longrightarrow> radiance sky' ! i = elevation_patches self mtx i))"
  proof (rule impI)
    assume "sky_n_azimuths self = n \<and> 0 < mfactor self \<and>
          length mtx = (sum_list (patches_per_elevation (mfactor self)) + 2) * n_timesteps"
    then have h: "sky_n_azimuths self = n" "0 < mfactor self"
      "length mtx = (sum_list (patches_per_elevation (mfactor self)) + 2) * n_timesteps"
      by simp_all
    from assms h(1) have p: "0 < sky_n_azimuths self" by simp
    from converter_bands[OF p h(2,3)] obtain sky' where
      s: "reinhart_to_meridinal_parallel_sky self mtx = Inr sky'"
         "length (radiance sky') = length (patches_per_elevation (mfactor self))"
      and b: "\<forall>i < length (patches_per_elevation (mfactor self)).
          length (elevation_patches self mtx i) = patches_per_elevation (mfactor self) ! i \<and>
          (\<forall>row \<in> set (elevation_patches self mtx i). length row = n_timesteps) \<and>
          resample_band (sky_n_azimuths self) (elevation_patches self mtx i)
            = Inr (radiance sky' ! i)"
      unfolding elevation_patches_def sky_patch_timeseries_def Let_def by auto
    have "radiance sky' ! i = elevation_patches self mtx i"
      if "i < length (patches_per_elevation (mfactor self))"
         "patches_per_elevation (mfactor self) ! i = n" for i
    proof -
      from b that(1) have
        l: "length (elevation_patches self mtx i) = patches_per_elevation (mfactor self) ! i"
        and r: "\<forall>row \<in> set (elevation_patches self mtx i). length row = n_timesteps"
        and e: "resample_band (sky_n_azimuths self) (elevation_patches self mtx i)
            = Inr (radiance sky' ! i)" by auto
      from l that(2) have "length (elevation_patches self mtx i) = n" by simp
      from resample_band_same[OF this assms r] e h(1) show ?thesis by simp
    qed
    with s show "\<exists>sky'. reinhart_to_meridinal_parallel_sky self mtx = Inr sky' \<and>
                   length (radiance sky') = length (patches_per_elevation (mfactor self)) \<and>
                   (\<forall>i < length (patches_per_elevation (mfactor self)).
                      patches_per_elevation (mfactor self) ! i = n
                        \<longrightarrow> radiance sky' ! i = elevation_patches self mtx i)" by blast
  qed
  have 3: "(\<forall>b \<in> set bands. length b = n \<and> (\<forall>r \<in> set b. length r = n_timesteps))
            \<longrightarrow> resample_bands n bands = Inr bands"
    using assms resample_bands_same by blast
  from 1 2 3 show ?thesis by (intro conjI)
qed

lemma ppe_1: "patches_per_elevation (Suc 0) = [30, 30, 24, 24, 18, 12, 6]"
  by (simp add: patches_per_elevation_def base_patches_per_elevation_def)

lemma map_upt_middle: "0 < n \<Longrightarrow> butlast (tl (map f [0..<Suc n])) = map f [1..<n]"
proof -
  assume n: "0 < n"
  have "[0..<Suc n] = 0 # [1..<Suc n]" by (simp add: upt_rec)
  moreover have "[1..<Suc n] = [1..<n] @ [n]" using n by simp
  ultimately have "tl (map f [0..<Suc n]) = map f [1..<n] @ [f n]" by simp
  then show ?thesis by (simp only: butlast_snoc)
qed

lemma tregenza_patches:
  "sky_patch_timeseries tregenza_mtx = map (\<lambda>p. replicate n_timesteps (real p)) [1..<145]"
proof -
  have v: "map (\<lambda>(r, g, b). (r + g + b) / 3) tregenza_mtx = concat tregenza_rows"
    by (simp add: tregenza_mtx_def map_concat comp_def)
  have l: "length tregenza_rows = 146" by (simp add: tregenza_rows_def)
  have rl: "\<forall>r \<in> set tregenza_rows. length r = n_timesteps"
    by (simp add: tregenza_rows_def)
  have "length (concat tregenza_rows) = 146 * n_timesteps"
    by (simp add: tregenza_rows_def length_concat comp_def sum_list_triv)
  then have d: "length (concat tregenza_rows) div n_timesteps = length tregenza_rows"
    by (simp add: l n_timesteps_def)
  have "reshape_groups (length (concat tregenza_rows) div n_timesteps) n_timesteps
          (concat tregenza_rows) = tregenza_rows"
    unfolding d using rl by (rule reshape_groups_concat)
  then have "sky_patch_timeseries tregenza_mtx = butlast (tl tregenza_rows)"
    by (simp add: sky_patch_timeseries_def Let_def v)
  also have "\<dots> = map (\<lambda>p. replicate n_timesteps (real p)) [1..<145]"
    using map_upt_middle[of 145 "\<lambda>p. replicate n_timesteps (real p)"]
    by (simp add: tregenza_rows_def)
  finally show ?thesis .
qed

lemma tregenza_band0:
  "elevation_patches (sky_attrs (Suc 0) 30) tregenza_mtx 0
     = map (\<lambda>p. replicate n_timesteps (real p)) [1..<31]"
proof -
  have "take 30 (map (\<lambda>p. replicate n_timesteps (real p)) [1..<145])
        = map (\<lambda>p. replicate n_timesteps (real p)) [1..<31]"
    by (simp add: take_map del: upt_Suc)
  then show ?thesis
    by (simp add: elevation_patches_def sky_attrs_def Let_def ppe_1 tregenza_patches)
qed

text \<open>
  Claim C6 on the matrix of 146 different rows under a sky of 30 azimuths: the conversion
  succeeds and the first band, of 30 patches, keeps its rows 1 to 30.
\<close>

theorem resample_same_count_identity_witness:
  "(0 :: nat) < 30 \<and>
   sky_n_azimuths (sky_attrs 1 30) = 30 \<and> 0 < mfactor (sky_attrs 1 30) \<and>
   length tregenza_mtx
     = (sum_list (patches_per_elevation (mfactor (sky_attrs 1 30))) + 2) * n_timesteps \<and>
   patches_per_elevation (mfactor (sky_attrs 1 30)) ! 0 = 30 \<and>
   (\<exists>sky'. reinhart_to_meridinal_parallel_sky (sky_attrs 1 30) tregenza_mtx = Inr sky' \<and>
      radiance sky' ! 0 = map (\<lambda>p. replicate n_timesteps (real p)) [1..<31]) \<and>
   resample_band 30 (map (\<lambda>p. replicate n_timesteps (real p)) [1..<31])
     = Inr (map (\<lambda>p. replicate n_timesteps (real p)) [1..<31])"
proof -
  have p: "(0 :: nat) < 30" by simp
  have a: "sky_n_azimuths (sky_attrs 1 30) = 30" "0 < mfactor (sky_attrs 1 30)"
    by (simp_all add: sky_attrs_def Let_def)
  have mf: "mfactor (sky_attrs 1 30) = Suc 0" by (simp add: sky_attrs_def Let_def)
  have l: "length tregenza_mtx
     = (sum_list (patches_per_elevation (mfactor (sky_attrs 1 30))) + 2) * n_timesteps"
    by (simp add: sky_attrs_def Let_def ppe_1 tregenza_mtx_def tregenza_rows_def length_concat
          comp_def sum_list_triv)
  have i: "patches_per_elevation (mfactor (sky_attrs 1 30)) ! 0 = 30"
    "0 < length (patches_per_elevation (mfactor (sky_attrs 1 30)))"
    by (simp_all add: sky_attrs_def Let_def ppe_1)
  have bl: "length (map (\<lambda>p. replicate n_timesteps (real p)) [1..<31]) = 30 \<and>
    (\<forall>r \<in> set (map (\<lambda>p. replicate n_timesteps (real p)) [1..<31]). length r = n_timesteps)"
    by simp
  note t = resample_same_count_identity[OF p,
      of "map (\<lambda>p. replicate n_timesteps (real p)) [1..<31]" "sky_attrs 1 30" tregenza_mtx "[]"]
  from t bl have b: "resample_band 30 (map (\<lambda>p. replicate n_timesteps (real p)) [1..<31])
     = Inr (map (\<lambda>p. replicate n_timesteps (real p)) [1..<31])" by blast
  from t a l obtain sky' where
    s: "reinhart_to_meridinal_parallel_sky (sky_attrs 1 30) tregenza_mtx = Inr sky'"
    and r: "\<forall>i < length (patches_per_elevation (mfactor (sky_attrs 1 30))).
              patches_per_elevation (mfactor (sky_attrs 1 30)) ! i = 30
                \<longrightarrow> radiance sky' ! i = elevation_patches (sky_attrs 1 30) tregenza_mtx i"
    by blast
  from r i have "radiance sky' ! 0 = elevation_patches (sky_attrs 1 30) tregenza_mtx 0"
    by blast
  then have "radiance sky' ! 0 = map (\<lambda>p. replicate n_timesteps (real p)) [1..<31]"
    using tregenza_band0 by simp
  with s have c: "\<exists>sky'. reinhart_to_meridinal_parallel_sky (sky_attrs 1 30) tregenza_mtx = Inr sky' \<and>
      radiance sky' ! 0 = map (\<lambda>p. replicate n_timesteps (real p)) [1..<31]" by blast
  from p a l i(1) c b show ?thesis by blast
qed

lemma length_cumsum_from: "length (cumsum_from acc xs) = length xs"
  by (induction xs arbitrary: acc) auto

lemma length_cumsum: "length (cumsum xs) = length xs"
  by (simp add: cumsum_def length_cumsum_from)

lemma extract_edges_nonempty:
  assumes "extract_flat_edge_list si ss f inc gdf = Inr (es, bs)"
  shows "es \<noteq> []"
proof -
  let ?rows = "flat_rows f gdf"
  from assms have ne: "?rows \<noteq> []"
    by (auto simp: extract_flat_edge_list_def Let_def split: if_splits)
  from assms have "length es = length ?rows"
    by (auto simp: extract_flat_edge_list_def Let_def length_cumsum split: if_splits)
  with ne show ?thesis by auto
qed

section \<open>Properties of the constructor and the accumulator\<close>

lemma log2_11: "\<lceil>log 2 (11 :: real)\<rceil> = 4"
proof -
  have "\<lceil>log (real 2) (real 11)\<rceil> = int 3 + 1"
    by (rule ceiling_log_nat_eq_if) simp_all
  then show ?thesis by simp
qed

lemma square_dims: "scene_dims square_args = (11, 11)"
  by (simp add: scene_dims_def relocated_gdf_def total_bounds_def all_points_def translate_def
        square_args_def unit_square_def Let_def)

lemma square_depth: "required_depth square_args = 4"
  by (simp add: required_depth_def min_nodes_required_def max_dim_def square_dims log2_11)
     (simp add: square_args_def log2_11)

lemma update_edge_angles:
  "az_start_angle (update_edge inc e) = normal_theta (update_edge inc e) - pi / 2 + inc / 2"
  by (simp add: update_edge_def Let_def)

lemma extract_edges_az:
  assumes "extract_flat_edge_list si ss f inc gdf = Inr (es, bs)" "x \<in> set es"
  shows "az_start_angle x = normal_theta x - pi / 2 + inc / 2"
proof -
  from assms have "x \<in> update_edge inc ` UNIV"
    by (auto simp: extract_flat_edge_list_def Let_def split: if_splits)
  then show ?thesis by (auto simp: update_edge_angles)
qed

lemma tracer_init_fields:
  assumes "tracer_init a = Inr T"
  shows "n_azimuths T = sky_n_azimuths (arg_sky a) div 2"
    and "0 < n_azimuths T"
    and "azimuth_inc T = pi / real (n_azimuths T)"
    and "azimuths T = map (\<lambda>i. real i * azimuth_inc T) [0..<n_azimuths T]"
    and "n_elevations T = sky_n_elevations (arg_sky a)"
    and "elevations T = elevation_centers (arg_sky a)"
    and "\<exists>bs. extract_flat_edge_list (arg_sensor_inset a) (arg_sensor_spacing a)
            (arg_f2f_height a) (azimuth_inc T) (relocated_gdf a) = Inr (edges T, bs)"
    and "sky T = arg_sky a"
  using assms
  by (auto simp: tracer_init_def Let_def split: if_splits sum.splits)

lemma elevation_center_pos:
  assumes "i < length (elevation_centers (sky_attrs mf n))"
  shows "0 < elevation_centers (sky_attrs mf n) ! i \<and>
         elevation_centers (sky_attrs mf n) ! i < pi / 2"
proof -
  let ?n = "length (patches_per_elevation mf)"
  let ?ap = "(84 * pi / 180) / real ?n"
  from assms have i: "i < ?n" by (simp add: sky_attrs_def Let_def)
  then have ne: "patches_per_elevation mf \<noteq> []" by auto
  then have npos: "0 < real ?n" by simp
  have c: "elevation_centers (sky_attrs mf n) ! i = ?ap * real i + ?ap / 2"
    using i by (simp add: sky_attrs_def Let_def)
  have appos: "0 < ?ap" using ne by simp
  have "?ap * real i + ?ap / 2 = ?ap * (real i + 1 / 2)" by (subst distrib_left) simp
  also have "\<dots> < ?ap * real ?n"
    using appos i by (intro mult_strict_left_mono) auto
  also have "\<dots> = 84 * pi / 180" using ne by simp
  also have "\<dots> < pi / 2" by simp
  finally have up: "?ap * real i + ?ap / 2 < pi / 2" .
  have "0 < ?ap * real i + ?ap / 2" using appos
    by (simp add: add_nonneg_pos)
  with up c show ?thesis by simp
qed

text \<open>
  Claim C10. On a constructed tracer, whose sky has the elevation centres that
  \<^verbatim>\<open>Sky.__init__\<close> computes, take an edge whose end points differ and a sensor on it. The
  stored normal angle is \<open>atan2\<close> of the stored normal, which is the unit vector of that
  angle. The world azimuth \<open>\<psi>\<close> of the ray of azimuth index \<open>a\<close> satisfies
  \<open>\<psi> - normal_theta = - \<pi>/2 + (a + 1/2) * azimuth_inc\<close>, which lies in
  \<open>[- \<pi>/2 + azimuth_inc/2, \<pi>/2 - azimuth_inc/2]\<close>; so the dot product of the ray's direction
  with the stored normal is strictly positive, the ray points into the open half-plane on
  the side of the stored normal, and the incidence factor is strictly positive at every
  elevation centre.
\<close>

theorem rays_point_outward:
  assumes "tracer_init a = Inr T" and "x \<in> set (edges T)"
    and "edge_start x \<noteq> edge_end x"
    and "edges T ! parent_edge_id sensor = x"
    and "az_ix < n_azimuths T" and "el_ix < n_elevations T"
    and "elevation_centers (arg_sky a) = elevation_centers (sky_attrs mf n)"
    and "sky_n_elevations (arg_sky a) = length (elevation_centers (sky_attrs mf n))"
  shows "normal_theta x = atan2 (snd (normal x)) (fst (normal x)) \<and>
         normal x = (cos (normal_theta x), sin (normal_theta x)) \<and>
         ray_az_angle T sensor az_ix = azimuths T ! az_ix + az_start_angle x \<and>
         ray_az_angle T sensor az_ix - normal_theta x
           = - (pi / 2) + (real az_ix + 1 / 2) * azimuth_inc T \<and>
         - (pi / 2) + azimuth_inc T / 2 \<le> ray_az_angle T sensor az_ix - normal_theta x \<and>
         ray_az_angle T sensor az_ix - normal_theta x \<le> pi / 2 - azimuth_inc T / 2 \<and>
         0 < azimuth_inc T \<and>
         0 < fst (ray_slope T sensor az_ix) * fst (normal x)
               + snd (ray_slope T sensor az_ix) * snd (normal x) \<and>
         0 < incidence_factor (ray_az_angle T sensor az_ix) (normal_theta x)
               (elevations T ! el_ix)"
proof -
  note f = tracer_init_fields[OF assms(1)]
  let ?inc = "azimuth_inc T"
  let ?psi = "ray_az_angle T sensor az_ix"
  let ?d = "?psi - normal_theta x"
  have psi: "?psi = azimuths T ! az_ix + az_start_angle x"
    by (simp add: ray_az_angle_def assms(4))
  have npos: "0 < real (n_azimuths T)" using f(2) by simp
  have incpos: "0 < ?inc" using f(3) npos by simp
  have az: "azimuths T ! az_ix = real az_ix * ?inc"
    using f(4) assms(5) by simp
  from f(7) obtain bs where ex: "extract_flat_edge_list (arg_sensor_inset a) (arg_sensor_spacing a)
            (arg_f2f_height a) ?inc (relocated_gdf a) = Inr (edges T, bs)" by blast
  from extract_edges_az[OF ex assms(2)]
  have st: "az_start_angle x = normal_theta x - pi / 2 + ?inc / 2" .
  have th: "normal_theta x = atan2 (snd (normal x)) (fst (normal x))"
    by (rule extract_edges_dir(3)[OF ex assms(2)])
  have "norm2 (fst (normal x), snd (normal x)) = 1"
    using extract_edges_unit_normal[OF ex assms(2,3)] by simp
  from atan2_unit[OF this] th
  have nrm: "normal x = (cos (normal_theta x), sin (normal_theta x))"
    by (simp add: prod_eq_iff)
  have 1: "?d = - (pi / 2) + (real az_ix + 1 / 2) * ?inc"
    by (simp add: psi az st algebra_simps)
  have "0 \<le> real az_ix * ?inc" using incpos by simp
  then have "- (pi / 2) + ?inc / 2 \<le> - (pi / 2) + (real az_ix + 1 / 2) * ?inc"
    by (simp add: algebra_simps)
  with 1 have lo: "- (pi / 2) + ?inc / 2 \<le> ?d" by simp
  have "real az_ix + 1 \<le> real (n_azimuths T)" using assms(5) by linarith
  then have "(real az_ix + 1) * ?inc \<le> real (n_azimuths T) * ?inc"
    using incpos by (intro mult_right_mono) auto
  also have "\<dots> = pi" using f(3) npos by simp
  finally have "(real az_ix + 1) * ?inc \<le> pi" .
  then have "- (pi / 2) + (real az_ix + 1 / 2) * ?inc \<le> pi / 2 - ?inc / 2"
    by (simp add: algebra_simps)
  with 1 have hi: "?d \<le> pi / 2 - ?inc / 2" by simp
  have cpos: "0 < cos ?d"
    using lo hi incpos by (intro cos_gt_zero_pi) auto
  have "fst (ray_slope T sensor az_ix) * fst (normal x)
          + snd (ray_slope T sensor az_ix) * snd (normal x)
        = cos ?psi * cos (normal_theta x) + sin ?psi * sin (normal_theta x)"
    by (subst (1 2) nrm) (simp add: ray_slope_def Let_def)
  also have "\<dots> = cos ?d" by (simp add: cos_diff)
  finally have dot: "0 < fst (ray_slope T sensor az_ix) * fst (normal x)
               + snd (ray_slope T sensor az_ix) * snd (normal x)"
    using cpos by simp
  have cabs: "0 < cos \<bar>?d\<bar>"
    using cpos by (simp add: cos_abs_real)
  have el: "el_ix < length (elevation_centers (sky_attrs mf n))"
    using assms(6,8) f(5) by simp
  have "elevations T ! el_ix = elevation_centers (sky_attrs mf n) ! el_ix"
    using f(6) assms(7) by simp
  with elevation_center_pos[OF el]
  have "0 < elevations T ! el_ix \<and> elevations T ! el_ix < pi / 2" by simp
  then have "0 < cos (elevations T ! el_ix)"
    by (intro cos_gt_zero_pi) auto
  with cabs have inc_f: "0 < incidence_factor ?psi (normal_theta x) (elevations T ! el_ix)"
    by (simp add: incidence_factor_def)
  from th nrm psi 1 lo hi incpos dot inc_f show ?thesis by blast
qed

lemma square_init_ok: "\<exists>T. tracer_init square_args = Inr T"
proof -
  have ex: "\<exists>es bs. extract_flat_edge_list (1 / 2) 1 3 (pi / 12) (relocated_gdf square_args)
              = Inr (es, bs)"
    by (simp add: extract_flat_edge_list_def relocated_gdf_def total_bounds_def all_points_def
          translate_def square_args_def unit_square_def Let_def flat_rows_def
          footprint_rows_def ring_rows_def)
  have mn: "min_nodes_required square_args = 11"
    by (simp add: min_nodes_required_def max_dim_def square_dims) (simp add: square_args_def)
  have pts: "all_points (arg_gdf square_args) \<noteq> []"
    by (simp add: all_points_def square_args_def unit_square_def)
  have sk: "sky_n_azimuths (arg_sky square_args) = 24"
       "azimuthal_aperture (arg_sky square_args) = pi / 12"
    by (simp_all add: square_args_def sky_attrs_def Let_def)
  have rest: "arg_node_width square_args = 1" "arg_ray_step_size square_args = 1"
      "arg_steps_per_unroll_loop square_args = 100" "length (arg_gdf square_args) = 1"
      "has_height_col square_args" "has_id_col square_args" "has_archetype_col square_args"
      "arg_sensor_spacing square_args = 1" "arg_f2f_height square_args = 3"
      "arg_sensor_inset square_args = 1 / 2"
    by (simp_all add: square_args_def)
  from ex obtain es bs where e: "extract_flat_edge_list (1 / 2) 1 3 (pi / 12)
      (relocated_gdf square_args) = Inr (es, bs)" by blast
  show ?thesis
    unfolding tracer_init_def
    by (simp add: rest sk mn pts square_depth e Let_def)
qed

lemma square_init: "tracer_init square_args = Inr square_tracer"
  using square_init_ok by (auto simp: square_tracer_def)

lemma relocated_square:
  "relocated_gdf square_args =
     [\<lparr> fp_rings = [[(5, 5), (6, 5), (6, 6), (5, 6), (5, 5)]], fp_height = 10,
        fp_archetype = 0 \<rparr>]"
  by (simp add: relocated_gdf_def total_bounds_def all_points_def translate_def
        square_args_def unit_square_def Let_def)

lemma square_tracer_hd:
  "edges square_tracer \<noteq> [] \<and>
   edge_start (hd (edges square_tracer)) = (5, 5) \<and>
   edge_end (hd (edges square_tracer)) = (6, 5) \<and>
   normal (hd (edges square_tracer)) = (0, 1)"
proof -
  note f = tracer_init_fields[OF square_init]
  have inc: "azimuth_inc square_tracer = pi / 12"
    using f(3) f(1) by (simp add: square_args_def sky_attrs_def Let_def)
  from f(7) obtain bs where ex: "extract_flat_edge_list (1 / 2) 1 3 (pi / 12)
      (relocated_gdf square_args) = Inr (edges square_tracer, bs)"
    by (auto simp: inc square_args_def)
  then have e: "edges square_tracer
      = fst (projr (extract_flat_edge_list (1 / 2) 1 3 (pi / 12) (relocated_gdf square_args)))"
    by simp
  show ?thesis
    unfolding e
    by (simp add: relocated_square extract_flat_edge_list_def Let_def
       flat_rows_def footprint_rows_def ring_rows_def update_edge_frame mk_edge_def
       unitize_def vsub_def norm2_def edge_normal_eq cumsum_def)
qed

text \<open>
  Claim C10 on the tracer of the unit square: first edge, from \<open>(5, 5)\<close> to \<open>(6, 5)\<close> with
  stored normal \<open>(0, 1)\<close>, a sensor on it, first azimuth, first elevation.
\<close>

theorem rays_point_outward_witness:
  "tracer_init square_args = Inr square_tracer \<and>
   hd (edges square_tracer) \<in> set (edges square_tracer) \<and>
   edge_start (hd (edges square_tracer)) \<noteq> edge_end (hd (edges square_tracer)) \<and>
   edges square_tracer ! parent_edge_id (init_xy_sensor square_tracer 0 0)
     = hd (edges square_tracer) \<and>
   (0 :: nat) < n_azimuths square_tracer \<and> (0 :: nat) < n_elevations square_tracer \<and>
   normal (hd (edges square_tracer)) = (0, 1) \<and>
   normal (hd (edges square_tracer))
     = (cos (normal_theta (hd (edges square_tracer))),
        sin (normal_theta (hd (edges square_tracer)))) \<and>
   0 < fst (ray_slope square_tracer (init_xy_sensor square_tracer 0 0) 0)
         * fst (normal (hd (edges square_tracer)))
       + snd (ray_slope square_tracer (init_xy_sensor square_tracer 0 0) 0)
         * snd (normal (hd (edges square_tracer))) \<and>
   0 < incidence_factor (ray_az_angle square_tracer (init_xy_sensor square_tracer 0 0) 0)
         (normal_theta (hd (edges square_tracer))) (elevations square_tracer ! 0)"
proof -
  note f = tracer_init_fields[OF square_init]
  note h = square_tracer_hd
  from h have mem: "hd (edges square_tracer) \<in> set (edges square_tracer)" by simp
  from h have ne: "edge_start (hd (edges square_tracer)) \<noteq> edge_end (hd (edges square_tracer))"
    by simp
  have par: "edges square_tracer ! parent_edge_id (init_xy_sensor square_tracer 0 0)
     = hd (edges square_tracer)"
    using h by (simp add: init_xy_sensor_def Let_def hd_conv_nth)
  have az: "(0 :: nat) < n_azimuths square_tracer" using f(2) .
  have sk: "elevation_centers (arg_sky square_args) = elevation_centers (sky_attrs 1 24)"
    "sky_n_elevations (arg_sky square_args) = length (elevation_centers (sky_attrs 1 24))"
    by (simp_all add: square_args_def sky_attrs_def Let_def)
  have el: "(0 :: nat) < n_elevations square_tracer"
    using f(5) by (simp add: square_args_def sky_attrs_def Let_def length_patches_per_elevation)
  have nrm: "normal (hd (edges square_tracer)) = (0, 1)" using h by simp
  note t = rays_point_outward[OF square_init mem ne par az el sk]
  from t have a: "normal (hd (edges square_tracer))
     = (cos (normal_theta (hd (edges square_tracer))),
        sin (normal_theta (hd (edges square_tracer))))" by blast
  from t have b: "0 < fst (ray_slope square_tracer (init_xy_sensor square_tracer 0 0) 0)
         * fst (normal (hd (edges square_tracer)))
       + snd (ray_slope square_tracer (init_xy_sensor square_tracer 0 0) 0)
         * snd (normal (hd (edges square_tracer)))" by blast
  from t have c: "0 < incidence_factor (ray_az_angle square_tracer (init_xy_sensor square_tracer 0 0) 0)
         (normal_theta (hd (edges square_tracer))) (elevations square_tracer ! 0)" by blast
  from square_init mem ne par az el nrm a b c show ?thesis by blast
qed




lemma sky_patch_az_ix_range:
  "0 < sky_n_azimuths (sky T) \<Longrightarrow>
     0 \<le> sky_patch_az_ix T psi \<and> sky_patch_az_ix T psi < int (sky_n_azimuths (sky T))"
  by (simp add: sky_patch_az_ix_def)






lemma map_enumerate_snd: "map (\<lambda>(i, p). g p) (enumerate n xs) = map g xs"
  by (induction xs arbitrary: n) auto

lemma xyz_cts_eq:
  "map xyz_sensor_ct (map (\<lambda>(i, p). init_xy_sensor (T\<lparr>nodes := tree\<rparr>) i p) (enumerate 0 spi))
     = map (\<lambda>p. edge_n_floors (edges T ! p)) spi"
proof -
  have "map xyz_sensor_ct (map (\<lambda>(i, p). init_xy_sensor (T\<lparr>nodes := tree\<rparr>) i p) (enumerate 0 spi))
        = map (\<lambda>(i, p). edge_n_floors (edges T ! p)) (enumerate 0 spi)"
    by (auto simp: init_xy_sensor_def Let_def)
  then show ?thesis by (simp add: map_enumerate_snd)
qed

lemma ray_trace_gate:
  assumes "xyz_ray_ct T = Inr c"
  shows "(2 ^ 32 \<le> c \<longrightarrow> (\<exists>e. ray_trace T tree = Some (Inl e))) \<and>
         (c < 2 ^ 32 \<longrightarrow> ray_trace T tree \<noteq> Some (Inl TooManyRays))"
proof -
  from assms obtain spi xpi where
    spi: "repeat_arange (map sensor_ct (edges T)) = Inr spi" and
    xpi: "repeat_arange (map (\<lambda>p. edge_n_floors (edges T ! p)) spi) = Inr xpi" and
    c: "c = int (length xpi) * int (n_azimuths T) * int (n_elevations T)"
    by (auto simp: xyz_ray_ct_def split: sum.splits)
  show ?thesis
    unfolding ray_trace_def
    by (simp add: spi Let_def xyz_cts_eq[unfolded map_map] xpi c[symmetric]
          split: option.splits)
qed

lemma ceiling_log2_ceiling:
  assumes "1 \<le> (x :: real)"
  shows "\<lceil>log 2 (of_int \<lceil>x\<rceil>)\<rceil> = \<lceil>log 2 x\<rceil>"
proof -
  have xpos: "0 < x" using assms by simp
  have cpos: "0 < (of_int \<lceil>x\<rceil> :: real)" using xpos by (simp add: ceiling_less_iff[symmetric] less_ceiling_iff)
  have key: "(\<lceil>log 2 (of_int \<lceil>x\<rceil>)\<rceil> \<le> n) = (\<lceil>log 2 x\<rceil> \<le> n)" for n :: int
  proof (cases "0 \<le> n")
    case True
    then obtain m where n: "n = int m" using nonneg_int_cases by blast
    have "(\<lceil>log 2 (of_int \<lceil>x\<rceil>)\<rceil> \<le> n) = (log 2 (of_int \<lceil>x\<rceil>) \<le> real m)"
      by (simp add: ceiling_le_iff n)
    also have "\<dots> = ((of_int \<lceil>x\<rceil> :: real) \<le> 2 ^ m)"
      using cpos by (simp add: log_le_iff powr_realpow)
    also have "\<dots> = (\<lceil>x\<rceil> \<le> 2 ^ m)"
      by (metis of_int_le_iff of_int_numeral of_int_power)
    also have "\<dots> = (x \<le> 2 ^ m)"
      by (simp add: ceiling_le_iff)
    also have "\<dots> = (log 2 x \<le> real m)"
      using xpos by (simp add: log_le_iff powr_realpow)
    also have "\<dots> = (\<lceil>log 2 x\<rceil> \<le> n)"
      by (simp add: ceiling_le_iff n)
    finally show ?thesis .
  next
    case False
    have "0 \<le> log 2 x" using assms by simp
    then have a: "0 \<le> \<lceil>log 2 x\<rceil>" by (simp add: le_ceiling_iff) 
    have "1 \<le> (of_int \<lceil>x\<rceil> :: real)" using assms
      by (metis le_of_int_ceiling order_trans)
    then have "0 \<le> log 2 (of_int \<lceil>x\<rceil>)" by simp
    then have b: "0 \<le> \<lceil>log 2 (of_int \<lceil>x\<rceil>)\<rceil>" by (simp add: le_ceiling_iff)
    have na: "\<not> \<lceil>log 2 x\<rceil> \<le> n" using a False by linarith
    have nb: "\<not> \<lceil>log 2 (of_int \<lceil>x\<rceil>)\<rceil> \<le> n" using b False by linarith
    from na nb show ?thesis by blast
  qed
  have le1: "\<lceil>log 2 (of_int \<lceil>x\<rceil>)\<rceil> \<le> \<lceil>log 2 x\<rceil>"
    using key[of "\<lceil>log 2 x\<rceil>"] by blast
  have le2: "\<lceil>log 2 x\<rceil> \<le> \<lceil>log 2 (of_int \<lceil>x\<rceil>)\<rceil>"
    using key[of "\<lceil>log 2 (of_int \<lceil>x\<rceil>)\<rceil>"] by blast
  from le1 le2 show ?thesis by (rule antisym)
qed

lemma extract_errors:
  "extract_flat_edge_list si ss f inc gdf = Inl e \<Longrightarrow> e = ValueError \<or> e = IndexError"
  by (auto simp: extract_flat_edge_list_def Let_def split: if_splits)

lemma tracer_init_not_gate_errors:
  assumes "arg_node_width a = 1" "int (length (arg_gdf a)) < 2 ^ 16" "required_depth a < 16"
  shows "tracer_init a \<noteq> Inl NodeWidthError \<and> tracer_init a \<noteq> Inl TooManyBuildings \<and>
         tracer_init a \<noteq> Inl DepthError"
  using assms
  by (auto simp: tracer_init_def Let_def split: if_splits sum.splits dest: extract_errors)

lemma tracer_init_fails:
  assumes "2 ^ 16 \<le> int (length (arg_gdf a)) \<or> 16 \<le> required_depth a"
  shows "\<exists>e. tracer_init a = Inl e"
  using assms
  by (auto simp: tracer_init_def Let_def split: if_splits sum.splits)

text \<open>
  Claim C9. The constructor fails when the node width is not 1 (its first assertion), and
  it fails when the table has \<open>2 ^ 16\<close> or more rows or the required depth is 16 or more;
  for a node width of 1 and a scene dimension of at least 1 the required depth
  \<open>ceiling (log 2 (ceiling max_dim))\<close> is \<open>ceiling (log 2 max_dim)\<close>. \<^verbatim>\<open>ray_trace\<close> ends in an
  error, with no ray cast, when the ray count is \<open>2 ^ 32\<close> or more. Under the
  complementary conditions none of the three assertions of the constructor fails, and the
  ray count assertion does not fail.
\<close>

theorem construction_and_ray_count_gates:
  "(arg_node_width a \<noteq> 1 \<longrightarrow> tracer_init a = Inl NodeWidthError) \<and>
   (2 ^ 16 \<le> int (length (arg_gdf a)) \<or> 16 \<le> required_depth a
      \<longrightarrow> (\<exists>e. tracer_init a = Inl e)) \<and>
   (arg_node_width a = 1 \<and> 1 \<le> max_dim a \<longrightarrow> required_depth a = \<lceil>log 2 (max_dim a)\<rceil>) \<and>
   (xyz_ray_ct T = Inr c \<and> 2 ^ 32 \<le> c \<longrightarrow> (\<exists>e. ray_trace T tree = Some (Inl e))) \<and>
   (arg_node_width a = 1 \<and> int (length (arg_gdf a)) < 2 ^ 16 \<and> required_depth a < 16
      \<longrightarrow> tracer_init a \<noteq> Inl NodeWidthError \<and> tracer_init a \<noteq> Inl TooManyBuildings \<and>
          tracer_init a \<noteq> Inl DepthError) \<and>
   (xyz_ray_ct T = Inr c \<and> c < 2 ^ 32 \<longrightarrow> ray_trace T tree \<noteq> Some (Inl TooManyRays))"
proof -
  have 1: "arg_node_width a \<noteq> 1 \<longrightarrow> tracer_init a = Inl NodeWidthError"
    by (simp add: tracer_init_def)
  have 3: "arg_node_width a = 1 \<and> 1 \<le> max_dim a \<longrightarrow> required_depth a = \<lceil>log 2 (max_dim a)\<rceil>"
    by (simp add: required_depth_def min_nodes_required_def ceiling_log2_ceiling)
  from 1 3 tracer_init_fails tracer_init_not_gate_errors ray_trace_gate
  show ?thesis by blast
qed

lemma ray_scene_ct: "xyz_ray_ct ray_scene = Inr 14"
  by (simp add: xyz_ray_ct_def ray_scene_def ray_edge_def repeat_arange_def numeral_2_eq_2)

lemma crowded_scene_ct: "xyz_ray_ct crowded_scene = Inr (7 * 2 ^ 30)"
  by (simp add: xyz_ray_ct_def crowded_scene_def ray_scene_def ray_edge_def repeat_arange_def
        numeral_2_eq_2)

text \<open>
  Claim C9 at concrete inputs: a node width of 2 is rejected; the unit square passes the
  three assertions with depth 4; the small scene has 14 rays and passes the ray count
  assertion; under \<open>2 ^ 30\<close> sky azimuths it has \<open>7 * 2 ^ 30\<close> rays and \<^verbatim>\<open>ray_trace\<close> fails.
\<close>

theorem construction_and_ray_count_gates_witness:
  "arg_node_width wide_node_args \<noteq> 1 \<and>
   tracer_init wide_node_args = Inl NodeWidthError \<and>
   arg_node_width square_args = 1 \<and> int (length (arg_gdf square_args)) < 2 ^ 16 \<and>
   required_depth square_args = 4 \<and>
   tracer_init square_args \<noteq> Inl DepthError \<and>
   xyz_ray_ct ray_scene = Inr 14 \<and>
   ray_trace ray_scene (nodes ray_scene) \<noteq> Some (Inl TooManyRays) \<and>
   xyz_ray_ct crowded_scene = Inr (7 * 2 ^ 30) \<and>
   (\<exists>e. ray_trace crowded_scene (nodes ray_scene) = Some (Inl e))"
proof -
  have w: "arg_node_width wide_node_args \<noteq> 1"
    by (simp add: wide_node_args_def)
  have s: "arg_node_width square_args = 1" "int (length (arg_gdf square_args)) < 2 ^ 16"
    by (simp_all add: square_args_def)
  have d: "required_depth square_args < 16" by (simp add: square_depth)
  have big: "(2 :: int) ^ 32 \<le> 7 * 2 ^ 30" by simp
  have small: "(14 :: int) < 2 ^ 32" by simp
  note t1 = construction_and_ray_count_gates[of wide_node_args ray_scene 14 "nodes ray_scene"]
  note t2 = construction_and_ray_count_gates[of square_args crowded_scene "7 * 2 ^ 30"
      "nodes ray_scene"]
  from t1 w have a: "tracer_init wide_node_args = Inl NodeWidthError" by blast
  from t2 s d have b: "tracer_init square_args \<noteq> Inl DepthError" by blast
  from t1 ray_scene_ct small
  have c: "ray_trace ray_scene (nodes ray_scene) \<noteq> Some (Inl TooManyRays)" by blast
  from t2 crowded_scene_ct big
  have e: "\<exists>e. ray_trace crowded_scene (nodes ray_scene) = Some (Inl e)" by blast
  from w a s square_depth b ray_scene_ct c crowded_scene_ct e show ?thesis by blast
qed

section \<open>Properties of the ray tracer\<close>

lemma trace_loop_stop:
  "\<not> in_domain T st sl k \<Longrightarrow>
     trace_loop T st sl el h k hf = Some (if hf = 0 then - 1 else ray_distance T k)"
  by (subst trace_loop.simps) simp

lemma trace_loop_found:
  "trace_loop T st sl el h k (Suc 0) = Some (ray_distance T k)"
  by (subst trace_loop.simps) simp

lemma trace_loop_step:
  "in_domain T st sl k \<Longrightarrow>
     trace_loop T st sl el h k 0
       = trace_loop T st sl el h (Suc k) (if obstructs T st sl el h k then 1 else 0)"
  by (subst trace_loop.simps) simp

lemma trace_loop_char:
  assumes "\<not> in_domain T st sl (k + n)"
  shows "\<exists>r. trace_loop T st sl el h k 0 = Some r \<and>
           ((\<exists>j. k \<le> j \<and> (\<forall>i. k \<le> i \<and> i \<le> j \<longrightarrow> in_domain T st sl i) \<and> obstructs T st sl el h j)
              \<longrightarrow> (\<exists>j. r = ray_distance T (Suc j))) \<and>
           (\<not> (\<exists>j. k \<le> j \<and> (\<forall>i. k \<le> i \<and> i \<le> j \<longrightarrow> in_domain T st sl i) \<and> obstructs T st sl el h j)
              \<longrightarrow> r = - 1)"
  using assms
proof (induction n arbitrary: k)
  case 0
  then have nd: "\<not> in_domain T st sl k" by simp
  then have nE: "\<not> (\<exists>j. k \<le> j \<and> (\<forall>i. k \<le> i \<and> i \<le> j \<longrightarrow> in_domain T st sl i) \<and> obstructs T st sl el h j)"
    by (meson order_refl)
  have "trace_loop T st sl el h k 0 = Some (- 1)"
    using nd by (simp add: trace_loop_stop)
  with nE show ?case by blast
next
  case (Suc n)
  show ?case
  proof (cases "in_domain T st sl k")
    case False
    then have nE: "\<not> (\<exists>j. k \<le> j \<and> (\<forall>i. k \<le> i \<and> i \<le> j \<longrightarrow> in_domain T st sl i) \<and> obstructs T st sl el h j)"
      by (meson order_refl)
    have "trace_loop T st sl el h k 0 = Some (- 1)"
      using False by (simp add: trace_loop_stop)
    with nE show ?thesis by blast
  next
    case dom: True
    show ?thesis
    proof (cases "obstructs T st sl el h k")
      case True
      have "trace_loop T st sl el h k 0 = Some (ray_distance T (Suc k))"
        using dom True by (simp add: trace_loop_step trace_loop_found)
      moreover have "\<exists>j. k \<le> j \<and> (\<forall>i. k \<le> i \<and> i \<le> j \<longrightarrow> in_domain T st sl i) \<and> obstructs T st sl el h j"
        using dom True by (intro exI[of _ k]) auto
      ultimately show ?thesis by blast
    next
      case False
      have eq: "trace_loop T st sl el h k 0 = trace_loop T st sl el h (Suc k) 0"
        using dom False by (simp add: trace_loop_step)
      have nd: "\<not> in_domain T st sl (Suc k + n)" using Suc.prems by simp
      have iff: "(\<exists>j. k \<le> j \<and> (\<forall>i. k \<le> i \<and> i \<le> j \<longrightarrow> in_domain T st sl i) \<and> obstructs T st sl el h j)
            = (\<exists>j. Suc k \<le> j \<and> (\<forall>i. Suc k \<le> i \<and> i \<le> j \<longrightarrow> in_domain T st sl i) \<and> obstructs T st sl el h j)"
      proof
        assume "\<exists>j. k \<le> j \<and> (\<forall>i. k \<le> i \<and> i \<le> j \<longrightarrow> in_domain T st sl i) \<and> obstructs T st sl el h j"
        then obtain j where j: "k \<le> j" "\<forall>i. k \<le> i \<and> i \<le> j \<longrightarrow> in_domain T st sl i"
          "obstructs T st sl el h j" by blast
        with False have "j \<noteq> k" by auto
        with j(1) have "Suc k \<le> j" by simp
        with j show "\<exists>j. Suc k \<le> j \<and> (\<forall>i. Suc k \<le> i \<and> i \<le> j \<longrightarrow> in_domain T st sl i) \<and> obstructs T st sl el h j"
          by (intro exI[of _ j]) auto
      next
        assume "\<exists>j. Suc k \<le> j \<and> (\<forall>i. Suc k \<le> i \<and> i \<le> j \<longrightarrow> in_domain T st sl i) \<and> obstructs T st sl el h j"
        then obtain j where j: "Suc k \<le> j" "\<forall>i. Suc k \<le> i \<and> i \<le> j \<longrightarrow> in_domain T st sl i"
          "obstructs T st sl el h j" by blast
        have "\<forall>i. k \<le> i \<and> i \<le> j \<longrightarrow> in_domain T st sl i"
        proof (intro allI impI)
          fix i assume "k \<le> i \<and> i \<le> j"
          then show "in_domain T st sl i"
            using dom j(2) by (cases "i = k") auto
        qed
        with j show "\<exists>j. k \<le> j \<and> (\<forall>i. k \<le> i \<and> i \<le> j \<longrightarrow> in_domain T st sl i) \<and> obstructs T st sl el h j"
          by (intro exI[of _ j]) auto
      qed
      from Suc.IH[OF nd] show ?thesis
        unfolding eq iff .
    qed
  qed
qed

lemma eventually_out:
  assumes "0 < ray_step_size T"
  shows "\<exists>n. \<not> in_domain T st sl n"
proof -
  from ex_less_of_nat_mult[OF assms, of "max_ray_length T"]
  obtain n where "max_ray_length T < real n * ray_step_size T" by blast
  then have "\<not> in_domain T st sl n"
    by (simp add: in_domain_def ray_distance_def)
  then show ?thesis ..
qed

lemma sampled_iff:
  "sampled T st sl k = (\<forall>i. 0 \<le> i \<and> i \<le> k \<longrightarrow> in_domain T st sl i)"
  by (simp add: sampled_def Ball_def)

lemma trace_xyz_ray_char:
  assumes "0 < ray_step_size T"
  shows "\<exists>r. trace_xyz_ray T st sl el h = Some r \<and>
           (r < 0 \<longleftrightarrow> (\<forall>k. sampled T st sl k \<longrightarrow> \<not> obstructs T st sl el h k))"
proof -
  from eventually_out[OF assms, of st sl] obtain n0 where "\<not> in_domain T st sl n0" by blast
  then have n: "\<not> in_domain T st sl (0 + n0)" by simp
  let ?E = "\<exists>j. 0 \<le> j \<and> (\<forall>i. 0 \<le> i \<and> i \<le> j \<longrightarrow> in_domain T st sl i) \<and> obstructs T st sl el h j"
  let ?C = "\<forall>k. sampled T st sl k \<longrightarrow> \<not> obstructs T st sl el h k"
  from trace_loop_char[OF n, of el h] obtain r where
    r0: "trace_loop T st sl el h 0 0 = Some r \<and>
       (?E \<longrightarrow> (\<exists>j. r = ray_distance T (Suc j))) \<and> (\<not> ?E \<longrightarrow> r = - 1)" ..
  from r0 have r: "trace_loop T st sl el h 0 0 = Some r"
       "?E \<longrightarrow> (\<exists>j. r = ray_distance T (Suc j))" "\<not> ?E \<longrightarrow> r = - 1"
    by (rule conjunct1, rule conjunct2[THEN conjunct1], rule conjunct2[THEN conjunct2])
  have E: "?E = (\<not> ?C)"
    unfolding sampled_iff by blast
  have "r < 0 \<longleftrightarrow> ?C"
  proof (cases ?E)
    case True
    with r(2) obtain j where "r = ray_distance T (Suc j)" by blast
    then have "0 < r" using assms by (simp add: ray_distance_def)
    then have "\<not> r < 0" by simp
    with True E show ?thesis by blast
  next
    case False
    with r(3) have "r < 0" by simp
    with False E show ?thesis by blast
  qed
  with r(1) show ?thesis unfolding trace_xyz_ray_def by blast
qed

lemma same_scene_refl: "same_scene T T"
  by (simp add: same_scene_def)

lemma map_eq_nth:
  assumes "map f xs' = map f xs" "s < length xs"
  shows "f (xs' ! s) = f (xs ! s)"
proof -
  from assms(1) have l: "length xs' = length xs" by (rule map_eq_imp_length_eq)
  have "f (xs' ! s) = map f xs' ! s" using assms(2) l by simp
  also have "\<dots> = map f xs ! s" using assms(1) by simp
  also have "\<dots> = f (xs ! s)" using assms(2) by simp
  finally show ?thesis .
qed

lemma same_scene_length:
  "same_scene T T' \<Longrightarrow> length (xyz_sensors T') = length (xyz_sensors T)"
  unfolding same_scene_def by (metis length_map)

lemma same_scene_parts:
  assumes "same_scene T T'"
  shows "ray_distance T' k = ray_distance T k"
    and "next_loc T' st sl k = next_loc T st sl k"
    and "in_scene T' q = in_scene T q"
    and "in_domain T' st sl k = in_domain T st sl k"
    and "obstructs T' st sl el h k = obstructs T st sl el h k"
    and "sampled T' st sl k = sampled T st sl k"
    and "ray_slope T' sensor a = ray_slope T sensor a"
proof -
  from assms have f: "width T' = width T" "scene_length T' = scene_length T"
      "max_ray_length T' = max_ray_length T" "ray_step_size T' = ray_step_size T"
      "nodes T' = nodes T" "edges T' = edges T" "xy_sensors T' = xy_sensors T"
      "azimuths T' = azimuths T" "elevations T' = elevations T"
    by (simp_all add: same_scene_def)
  show d: "ray_distance T' k = ray_distance T k" for k
    by (simp add: ray_distance_def f)
  show n: "next_loc T' st sl k = next_loc T st sl k" for k
    by (simp add: next_loc_def d)
  show s: "in_scene T' q = in_scene T q" for q
    by (simp add: in_scene_def f)
  show i: "in_domain T' st sl k = in_domain T st sl k" for k
    by (simp add: in_domain_def d n s f)
  show "obstructs T' st sl el h k = obstructs T st sl el h k"
    by (simp add: obstructs_def d n f cong: option.case_cong)
  show "sampled T' st sl k = sampled T st sl k"
    by (simp add: sampled_def i)
  show "ray_slope T' sensor a = ray_slope T sensor a"
    by (simp add: ray_slope_def ray_az_angle_def f)
qed

lemma same_scene_ray_clear:
  assumes "same_scene T T'" "s < length (xyz_sensors T)"
  shows "ray_clear T' (s, a, e) = ray_clear T (s, a, e)"
proof -
  from assms(1) have m: "map xyz_height (xyz_sensors T') = map xyz_height (xyz_sensors T)"
      "map parent_sensor_id (xyz_sensors T') = map parent_sensor_id (xyz_sensors T)"
    by (simp_all add: same_scene_def)
  have h: "xyz_height (xyz_sensors T' ! s) = xyz_height (xyz_sensors T ! s)"
    using map_eq_nth[OF m(1) assms(2)] .
  have p: "parent_sensor_id (xyz_sensors T' ! s) = parent_sensor_id (xyz_sensors T ! s)"
    using map_eq_nth[OF m(2) assms(2)] .
  from assms(1) have f: "xy_sensors T' = xy_sensors T" "elevations T' = elevations T"
    by (simp_all add: same_scene_def)
  show ?thesis
    by (simp add: ray_clear_def same_scene_parts[OF assms(1)] h p f Let_def)
qed

lemma map_update_same: "(map f xs)[s := f (xs ! s)] = map f xs"
  by (cases "s < length xs") (simp_all add: list_update_same_conv list_update_beyond)

lemma same_scene_mark_visible:
  assumes "same_scene T Tc"
  shows "same_scene T (mark_visible Tc ix)"
proof -
  obtain s a e where ix: "ix = (s, a, e)" by (cases ix)
  let ?xs = "(xyz_sensors Tc)[s := (xyz_sensors Tc ! s)\<lparr>rad := rad (xyz_sensors Tc ! s) + 1\<rparr>]"
  have a: "map xyz_height ?xs = map xyz_height (xyz_sensors Tc)"
    using map_update_same[of xyz_height "xyz_sensors Tc" s] by (simp add: map_update)
  have b: "map parent_sensor_id ?xs = map parent_sensor_id (xyz_sensors Tc)"
    using map_update_same[of parent_sensor_id "xyz_sensors Tc" s] by (simp add: map_update)
  have x: "xyz_sensors (mark_visible Tc ix) = ?xs"
    by (simp add: mark_visible_def ix)
  have rest: "width (mark_visible Tc ix) = width Tc"
      "scene_length (mark_visible Tc ix) = scene_length Tc"
      "max_ray_length (mark_visible Tc ix) = max_ray_length Tc"
      "ray_step_size (mark_visible Tc ix) = ray_step_size Tc"
      "nodes (mark_visible Tc ix) = nodes Tc" "edges (mark_visible Tc ix) = edges Tc"
      "xy_sensors (mark_visible Tc ix) = xy_sensors Tc"
      "azimuths (mark_visible Tc ix) = azimuths Tc"
      "elevations (mark_visible Tc ix) = elevations Tc"
      "n_azimuths (mark_visible Tc ix) = n_azimuths Tc"
      "n_elevations (mark_visible Tc ix) = n_elevations Tc"
      "hits (mark_visible Tc ix) = hits Tc"
    by (simp_all add: mark_visible_def ix)
  show ?thesis
    using assms unfolding same_scene_def rest x a b .
qed

lemma unified_ray_char:
  assumes "0 < ray_step_size T"
  shows "\<exists>d. unified_ray T ix = Some d \<and> (d < 0 \<longleftrightarrow> ray_clear T ix)"
proof -
  obtain s a e where ix: "ix = (s, a, e)" by (cases ix)
  show ?thesis
    unfolding ix unified_ray_def ray_clear_def
    using trace_xyz_ray_char[OF assms] by (simp add: Let_def)
qed

lemma unified_body_char:
  assumes "0 < ray_step_size T" "same_scene T Tc" "fst ix < length (xyz_sensors T)"
  shows "unified_body Tc ix = Some (if ray_clear T ix then mark_visible Tc ix else Tc)"
proof -
  obtain s a e where ix: "ix = (s, a, e)" by (cases ix)
  from assms(1,2) have st: "0 < ray_step_size Tc" by (simp add: same_scene_def)
  from unified_ray_char[OF st, of ix] obtain d where
    d: "unified_ray Tc ix = Some d \<and> (d < 0 \<longleftrightarrow> ray_clear Tc ix)" ..
  have "ray_clear Tc ix = ray_clear T ix"
    using same_scene_ray_clear[OF assms(2)] assms(3) by (simp add: ix)
  with d show ?thesis by (simp add: unified_body_def)
qed

lemma rad_mark_visible:
  assumes "s < length (xyz_sensors Tc)"
  shows "rad (xyz_sensors (mark_visible Tc ix) ! s)
           = rad (xyz_sensors Tc ! s) + (if fst ix = s then 1 else 0)"
proof -
  obtain s0 a e where ix: "ix = (s0, a, e)" by (cases ix)
  show ?thesis using assms by (simp add: mark_visible_def ix nth_list_update)
qed

lemma views_mark_visible: "xyz_views (mark_visible Tc ix) = insert ix (xyz_views Tc)"
  by (cases ix) (simp add: mark_visible_def)

lemma unified_fold_char:
  assumes "0 < ray_step_size T" "same_scene T Tc"
    and "\<forall>ix \<in> set ixs. fst ix < length (xyz_sensors T)"
  shows "\<exists>T'. kernel_fold unified_body ixs Tc = Some T' \<and> same_scene T T' \<and>
           xyz_views T' = xyz_views Tc \<union> {ix \<in> set ixs. ray_clear T ix} \<and>
           (\<forall>s < length (xyz_sensors T).
              rad (xyz_sensors T' ! s)
                = rad (xyz_sensors Tc ! s)
                  + real (length (filter (\<lambda>ix. fst ix = s \<and> ray_clear T ix) ixs)))"
  using assms(2,3)
proof (induction ixs arbitrary: Tc)
  case Nil
  then show ?case by simp
next
  case (Cons ix ixs)
  let ?Tn = "if ray_clear T ix then mark_visible Tc ix else Tc"
  have b: "unified_body Tc ix = Some ?Tn"
    using unified_body_char[OF assms(1) Cons.prems(1)] Cons.prems(2) by simp
  have sn: "same_scene T ?Tn"
    using Cons.prems(1) by (simp add: same_scene_mark_visible)
  have r: "\<forall>ix \<in> set ixs. fst ix < length (xyz_sensors T)" using Cons.prems(2) by simp
  from Cons.IH[OF sn r] obtain T' where
    T': "kernel_fold unified_body ixs ?Tn = Some T'" "same_scene T T'"
        "xyz_views T' = xyz_views ?Tn \<union> {ix \<in> set ixs. ray_clear T ix}"
        "\<forall>s < length (xyz_sensors T).
              rad (xyz_sensors T' ! s)
                = rad (xyz_sensors ?Tn ! s)
                  + real (length (filter (\<lambda>ix. fst ix = s \<and> ray_clear T ix) ixs))"
    by blast
  have k: "kernel_fold unified_body (ix # ixs) Tc = Some T'"
    using b T'(1) by simp
  have v: "xyz_views T' = xyz_views Tc \<union> {i \<in> set (ix # ixs). ray_clear T i}"
    using T'(3) by (auto simp: views_mark_visible)
  have len: "length (xyz_sensors Tc) = length (xyz_sensors T)"
    using same_scene_length[OF Cons.prems(1)] .
  have rd: "\<forall>s < length (xyz_sensors T).
              rad (xyz_sensors T' ! s)
                = rad (xyz_sensors Tc ! s)
                  + real (length (filter (\<lambda>i. fst i = s \<and> ray_clear T i) (ix # ixs)))"
  proof (intro allI impI)
    fix s assume s: "s < length (xyz_sensors T)"
    have "rad (xyz_sensors ?Tn ! s)
            = rad (xyz_sensors Tc ! s) + (if fst ix = s \<and> ray_clear T ix then 1 else 0)"
      using s len by (simp add: rad_mark_visible)
    with T'(4) s show "rad (xyz_sensors T' ! s)
                = rad (xyz_sensors Tc ! s)
                  + real (length (filter (\<lambda>i. fst i = s \<and> ray_clear T i) (ix # ixs)))"
      by simp
  qed
  from k T'(2) v rd show ?case by blast
qed





lemma set_ndrange: "(s, a, e) \<in> set (ndrange A B C) \<longleftrightarrow> s < A \<and> a < B \<and> e < C"
  by (simp add: ndrange_def)

lemma unified_trace_char:
  assumes "0 < ray_step_size T"
  shows "\<exists>T'. xyz_trace_unified T = Some T' \<and> same_scene T T' \<and>
      xyz_views T' = xyz_views T
         \<union> {ix \<in> set (ndrange (length (xyz_sensors T)) (n_azimuths T) (n_elevations T)).
              ray_clear T ix} \<and>
      (\<forall>s < length (xyz_sensors T).
         rad (xyz_sensors T' ! s)
           = rad (xyz_sensors T ! s)
             + real (length (filter (\<lambda>ix. fst ix = s \<and> ray_clear T ix)
                  (ndrange (length (xyz_sensors T)) (n_azimuths T) (n_elevations T)))))"
proof -
  have r: "\<forall>ix \<in> set (ndrange (length (xyz_sensors T)) (n_azimuths T) (n_elevations T)).
             fst ix < length (xyz_sensors T)"
    by (auto simp: set_ndrange)
  from unified_fold_char[OF assms same_scene_refl r] show ?thesis
    by (simp add: xyz_trace_unified_def)
qed


lemma ray_scene_fields:
  "ray_step_size ray_scene = 1" "max_ray_length ray_scene = 3"
  "width ray_scene = 20" "scene_length ray_scene = 20"
  "length (xyz_sensors ray_scene) = 2" "n_azimuths ray_scene = 1" "n_elevations ray_scene = 7"
  "xyz_views ray_scene = {}"
  by (simp_all add: ray_scene_def)

lemma ray_scene_el0: "elevations ray_scene ! 0 = pi / 30"
  by (simp add: ray_scene_def sky_attrs_def Let_def patches_per_elevation_def
        base_patches_per_elevation_def)

lemma ray_scene_rays:
  "loc (xy_sensors ray_scene ! parent_sensor_id (xyz_sensors ray_scene ! 0)) = (13 / 2, 13 / 2)"
  "loc (xy_sensors ray_scene ! parent_sensor_id (xyz_sensors ray_scene ! Suc 0)) = (13 / 2, 11 / 2)"
  "xyz_height (xyz_sensors ray_scene ! 0) = 0"
  "xyz_height (xyz_sensors ray_scene ! Suc 0) = 0"
  "ray_slope ray_scene (xy_sensors ray_scene ! parent_sensor_id (xyz_sensors ray_scene ! 0)) 0
     = (1, 0)"
  "ray_slope ray_scene (xy_sensors ray_scene ! parent_sensor_id (xyz_sensors ray_scene ! Suc 0)) 0
     = (1, 0)"
  by (simp_all add: ray_scene_def ray_edge_def ray_slope_def ray_az_angle_def)

lemma ray_scene_dom: "in_domain ray_scene st sl k \<Longrightarrow> k < 3"
  by (simp add: in_domain_def ray_distance_def ray_scene_fields)

lemma east_loc: "next_loc ray_scene (x, y) (1, 0) k = (x + real k, y)"
  by (simp add: next_loc_def ray_distance_def vadd_def smul_def ray_scene_fields)

lemma ray_scene_nodes:
  "nodes ray_scene (6, 5) = None" "nodes ray_scene (7, 5) = None"
  "nodes ray_scene (8, 5) = None" "nodes ray_scene (9, 5) = Some 100"
  "nodes ray_scene (8, 6) = Some 100"
  by (simp_all add: ray_scene_def)

lemma low_ray_free:
  assumes "k < 3"
  shows "\<not> obstructs ray_scene (13 / 2, 11 / 2) (1, 0) el h k"
proof -
  from assms consider "k = 0" | "k = 1" | "k = 2" by linarith
  then show ?thesis
  proof cases
    case 1
    have "\<lfloor>13 / 2 :: real\<rfloor> = 6" "\<lfloor>11 / 2 :: real\<rfloor> = 5" by linarith+
    with 1 show ?thesis by (simp add: obstructs_def east_loc cell_of_def ray_scene_nodes)
  next
    case 2
    have "\<lfloor>15 / 2 :: real\<rfloor> = 7" "\<lfloor>11 / 2 :: real\<rfloor> = 5" by linarith+
    with 2 show ?thesis by (simp add: obstructs_def east_loc cell_of_def ray_scene_nodes)
  next
    case 3
    have "\<lfloor>17 / 2 :: real\<rfloor> = 8" "\<lfloor>11 / 2 :: real\<rfloor> = 5" by linarith+
    with 3 show ?thesis by (simp add: obstructs_def east_loc cell_of_def ray_scene_nodes)
  qed
qed

lemma arctan_big: "1 \<le> x \<Longrightarrow> pi / 30 < arctan x"
proof -
  assume "1 \<le> x"
  then have "arctan 1 \<le> arctan x" by (simp add: arctan_le_iff)
  then have "pi / 4 \<le> arctan x" by (simp add: arctan_one)
  then show ?thesis using pi_gt_zero by linarith
qed

lemma low_ray_blocked_at_3:
  "obstructs ray_scene (13 / 2, 11 / 2) (1, 0) (pi / 30) 0 3"
proof -
  have f: "\<lfloor>19 / 2 :: real\<rfloor> = 9" "\<lfloor>11 / 2 :: real\<rfloor> = 5" by linarith+
  have a: "pi / 30 < arctan (100 / 3)" by (rule arctan_big) simp
  have d: "ray_distance ray_scene 3 = 3" by (simp add: ray_distance_def ray_scene_fields)
  show ?thesis
    using a by (simp add: obstructs_def east_loc cell_of_def ray_scene_nodes f atan2_def d)
qed



lemma low_ray_clear: "ray_clear ray_scene (Suc 0, 0, 0)"
proof -
  have "\<not> obstructs ray_scene (13 / 2, 11 / 2) (1, 0) el h k"
    if "sampled ray_scene (13 / 2, 11 / 2) (1, 0) k" for k el h
  proof -
    from that have "in_domain ray_scene (13 / 2, 11 / 2) (1, 0) k" by (simp add: sampled_def)
    then have "k < 3" by (rule ray_scene_dom)
    then show ?thesis by (rule low_ray_free)
  qed
  then show ?thesis
    by (simp add: ray_clear_def ray_scene_rays Let_def)
qed










lemma sampled_imp_in_domain: "sampled T st sl k \<Longrightarrow> in_domain T st sl k"
  by (simp add: sampled_def)

lemma trace_xyz_ray_clear:
  assumes "0 < ray_step_size T"
    and "\<forall>k. sampled T st sl k \<longrightarrow> \<not> obstructs T st sl el h k"
  shows "trace_xyz_ray T st sl el h = Some (- 1)"
proof -
  from eventually_out[OF assms(1), of st sl] obtain n0 where "\<not> in_domain T st sl n0" by blast
  then have n: "\<not> in_domain T st sl (0 + n0)" by simp
  let ?E = "\<exists>j. 0 \<le> j \<and> (\<forall>i. 0 \<le> i \<and> i \<le> j \<longrightarrow> in_domain T st sl i) \<and> obstructs T st sl el h j"
  from trace_loop_char[OF n, of el h] obtain r where
    r0: "trace_loop T st sl el h 0 0 = Some r \<and>
       (?E \<longrightarrow> (\<exists>j. r = ray_distance T (Suc j))) \<and> (\<not> ?E \<longrightarrow> r = - 1)" ..
  have "\<not> ?E" using assms(2) unfolding sampled_iff by blast
  with r0 show ?thesis unfolding trace_xyz_ray_def by simp
qed

text \<open>
  Claim C5, as amended. The comparison of the distance with the maximal ray length is part
  of the loop guard, evaluated before the cell of the step is looked up: a step whose
  distance is the maximal ray length or more is not sampled, and a ray whose only obstructing
  cells lie at such steps ends as unobstructed.
\<close>

theorem distance_guard_before_sampling:
  assumes "0 < ray_step_size T"
  shows "(max_ray_length T \<le> ray_distance T k
            \<longrightarrow> \<not> in_domain T st sl k \<and> \<not> sampled T st sl k) \<and>
         ((\<forall>j. ray_distance T j < max_ray_length T \<longrightarrow> \<not> obstructs T st sl el h j)
            \<longrightarrow> trace_xyz_ray T st sl el h = Some (- 1))"
proof -
  have a: "max_ray_length T \<le> ray_distance T k
            \<longrightarrow> \<not> in_domain T st sl k \<and> \<not> sampled T st sl k"
    using sampled_imp_in_domain[of T st sl k] by (auto simp: in_domain_def)
  have b: "trace_xyz_ray T st sl el h = Some (- 1)"
    if h: "\<forall>j. ray_distance T j < max_ray_length T \<longrightarrow> \<not> obstructs T st sl el h j"
  proof -
    have "\<forall>k. sampled T st sl k \<longrightarrow> \<not> obstructs T st sl el h k"
      using h sampled_imp_in_domain[of T st sl] by (auto simp: in_domain_def)
    then show ?thesis by (rule trace_xyz_ray_clear[OF assms])
  qed
  from a b show ?thesis by blast
qed

lemma low_ray_trace: "trace_xyz_ray ray_scene (13 / 2, 11 / 2) (1, 0) (pi / 30) 0 = Some (- 1)"
proof -
  have st: "0 < ray_step_size ray_scene" by (simp add: ray_scene_fields)
  have "\<forall>k. sampled ray_scene (13 / 2, 11 / 2) (1, 0) k
          \<longrightarrow> \<not> obstructs ray_scene (13 / 2, 11 / 2) (1, 0) (pi / 30) 0 k"
    using ray_scene_dom low_ray_free sampled_imp_in_domain by blast
  then show ?thesis by (rule trace_xyz_ray_clear[OF st])
qed

text \<open>
  Claim C5 as stated fails: in the small scene the fourth step of the second sensor's ray is
  inside the scene, at a distance equal to the maximal ray length, in an active cell that
  would obstruct; the ray ends as unobstructed.
\<close>

theorem final_cell_counterexample:
  "in_scene ray_scene (next_loc ray_scene (13 / 2, 11 / 2) (1, 0) 3) \<and>
   ray_distance ray_scene 3 = max_ray_length ray_scene \<and>
   obstructs ray_scene (13 / 2, 11 / 2) (1, 0) (pi / 30) 0 3 \<and>
   trace_xyz_ray ray_scene (13 / 2, 11 / 2) (1, 0) (pi / 30) 0 = Some (- 1)"
proof -
  have a: "in_scene ray_scene (next_loc ray_scene (13 / 2, 11 / 2) (1, 0) 3)"
    by (simp add: east_loc in_scene_def ray_scene_fields)
  have b: "ray_distance ray_scene 3 = max_ray_length ray_scene"
    by (simp add: ray_distance_def ray_scene_fields)
  from a b low_ray_blocked_at_3 low_ray_trace show ?thesis by blast
qed

text \<open>
  The amended claim C5 on the same ray.
\<close>

theorem distance_guard_before_sampling_witness:
  "0 < ray_step_size ray_scene \<and>
   max_ray_length ray_scene \<le> ray_distance ray_scene 3 \<and>
   \<not> in_domain ray_scene (13 / 2, 11 / 2) (1, 0) 3 \<and>
   \<not> sampled ray_scene (13 / 2, 11 / 2) (1, 0) 3 \<and>
   trace_xyz_ray ray_scene (13 / 2, 11 / 2) (1, 0) (pi / 30) 0 = Some (- 1)"
proof -
  have st: "0 < ray_step_size ray_scene" by (simp add: ray_scene_fields)
  have m: "max_ray_length ray_scene \<le> ray_distance ray_scene 3"
    by (simp add: ray_distance_def ray_scene_fields)
  have free: "\<forall>j. ray_distance ray_scene j < max_ray_length ray_scene
             \<longrightarrow> \<not> obstructs ray_scene (13 / 2, 11 / 2) (1, 0) (pi / 30) 0 j"
    using low_ray_free by (auto simp: ray_distance_def ray_scene_fields)
  note t = distance_guard_before_sampling[OF st, of 3 "(13 / 2, 11 / 2)" "(1, 0)" "pi / 30" 0]
  from t m have a: "\<not> in_domain ray_scene (13 / 2, 11 / 2) (1, 0) 3 \<and>
      \<not> sampled ray_scene (13 / 2, 11 / 2) (1, 0) 3" by blast
  from t free have b: "trace_xyz_ray ray_scene (13 / 2, 11 / 2) (1, 0) (pi / 30) 0 = Some (- 1)"
    by blast
  from st m a b show ?thesis by blast
qed

lemma floors: "\<lfloor>13 / 2 :: real\<rfloor> = 6" "\<lfloor>11 / 2 :: real\<rfloor> = 5" "\<lfloor>15 / 2 :: real\<rfloor> = 7"
  "\<lfloor>17 / 2 :: real\<rfloor> = 8" "\<lfloor>19 / 2 :: real\<rfloor> = 9"
  by linarith+

lemma ray_scene_static:
  "steps_per_unroll_loop ray_scene = 2" "n_loops_to_unroll ray_scene = 2"
  "length (xy_sensors ray_scene) = 2" "azimuths ray_scene = [0]" "edges ray_scene = [ray_edge]"
  "az_start_angle ray_edge = 0"
  "parent_edge_id (xy_sensors ray_scene ! 0) = 0" "parent_edge_id (xy_sensors ray_scene ! Suc 0) = 0"
  "loc (xy_sensors ray_scene ! 0) = (13 / 2, 13 / 2)"
  "loc (xy_sensors ray_scene ! Suc 0) = (13 / 2, 11 / 2)"
  "hit_count (xy_sensors ray_scene ! 0) = 0" "hit_count (xy_sensors ray_scene ! Suc 0) = 0"
  "hits ray_scene = (\<lambda>k. [])"
  by (simp_all add: ray_scene_def ray_edge_def)

lemma ray_scene_cells:
  "nodes ray_scene (6, 6) = None" "nodes ray_scene (7, 6) = None"
  "nodes ray_scene (9, 6) = None"
  by (simp_all add: ray_scene_def)

lemmas ev = ray_scene_static ray_scene_fields ray_scene_nodes ray_scene_cells
      xy_body_def
      ray_slope_def ray_az_angle_def next_loc_def ray_distance_def vadd_def smul_def
      in_scene_def cell_of_def floors Let_def

lemma nd212:
  "ndrange 2 (Suc 0) 2 = [(0, 0, 0), (0, 0, Suc 0), (Suc 0, 0, 0), (Suc 0, 0, Suc 0)]"
  by (simp add: ndrange_def numeral_2_eq_2)

lemma upt2: "[0..<2] = [0, Suc 0]"
  by (simp add: numeral_2_eq_2)

lemma first_block:
  "xy_body 0 ray_scene (0, 0, 0) = ray_scene" "xy_body 0 ray_scene (0, 0, Suc 0) = ray_scene"
  "xy_body 0 ray_scene (Suc 0, 0, 0) = ray_scene" "xy_body 0 ray_scene (Suc 0, 0, Suc 0) = ray_scene"
  by (simp_all add: ev)

lemma xy_trace_ray_scene:
  "hits (xy_trace ray_scene) (Suc 0, 0)
     = [\<lparr> loc_x_ix = 9, loc_y_ix = 5, hit_height = 100, hit_distance = 3 \<rparr>] \<and>
   hit_count (xy_sensors (xy_trace ray_scene) ! Suc 0) = 1 \<and>
   xyz_sensors (xy_trace ray_scene) = xyz_sensors ray_scene \<and>
   elevations (xy_trace ray_scene) = elevations ray_scene \<and>
   n_azimuths (xy_trace ray_scene) = n_azimuths ray_scene \<and>
   n_elevations (xy_trace ray_scene) = n_elevations ray_scene \<and>
   xyz_views (xy_trace ray_scene) = {}"
proof -
  define T1 where "T1 = xy_body 2 ray_scene (0, 0, 0)"
  define T2 where "T2 = xy_body 2 T1 (0, 0, Suc 0)"
  define T3 where "T3 = xy_body 2 T2 (Suc 0, 0, 0)"
  define T4 where "T4 = xy_body 2 T3 (Suc 0, 0, Suc 0)"
  have e: "xy_trace ray_scene = T4"
    by (simp add: xy_trace_def ray_scene_static ray_scene_fields nd212 upt2 first_block
          T1_def T2_def T3_def T4_def)
  have t1: "T1 = ray_scene
      \<lparr> hits := (hits ray_scene)((0, 0) :=
           [\<lparr> loc_x_ix = 8, loc_y_ix = 6, hit_height = 100, hit_distance = 2 \<rparr>]),
        xy_sensors := (xy_sensors ray_scene)[0 := (xy_sensors ray_scene ! 0)\<lparr> hit_count := 1 \<rparr>] \<rparr>"
    unfolding T1_def by (simp add: ev)
  have s1: "ray_step_size T1 = 1" "width T1 = 20" "scene_length T1 = 20"
      "nodes T1 = nodes ray_scene" "azimuths T1 = [0]" "edges T1 = [ray_edge]"
      "loc (xy_sensors T1 ! 0) = (13 / 2, 13 / 2)" "loc (xy_sensors T1 ! Suc 0) = (13 / 2, 11 / 2)"
      "parent_edge_id (xy_sensors T1 ! 0) = 0" "parent_edge_id (xy_sensors T1 ! Suc 0) = 0"
      "hit_count (xy_sensors T1 ! Suc 0) = 0" "hits T1 (Suc 0, 0) = []"
    by (simp_all add: t1 ray_scene_static ray_scene_fields)
  have t2: "T2 = T1"
    unfolding T2_def
    by (simp add: xy_body_def ray_slope_def ray_az_angle_def next_loc_def ray_distance_def
          vadd_def smul_def in_scene_def cell_of_def floors Let_def s1 ray_scene_static
          ray_scene_cells)
  have t3: "T3 = T1"
    unfolding T3_def t2
    by (simp add: xy_body_def ray_slope_def ray_az_angle_def next_loc_def ray_distance_def
          vadd_def smul_def in_scene_def cell_of_def floors Let_def s1 ray_scene_static
          ray_scene_nodes)
  have t4: "T4 = T1
      \<lparr> hits := (hits T1)((Suc 0, 0) :=
           [\<lparr> loc_x_ix = 9, loc_y_ix = 5, hit_height = 100, hit_distance = 3 \<rparr>]),
        xy_sensors := (xy_sensors T1)[Suc 0 := (xy_sensors T1 ! Suc 0)\<lparr> hit_count := 1 \<rparr>] \<rparr>"
    unfolding T4_def t3
    by (simp add: xy_body_def ray_slope_def ray_az_angle_def next_loc_def ray_distance_def
          vadd_def smul_def in_scene_def cell_of_def floors Let_def s1 ray_scene_static
          ray_scene_nodes)
  have l1: "length (xy_sensors T1) = 2" by (simp add: t1 ray_scene_static)
  show ?thesis
    unfolding e t4 using l1 by (simp add: t1 ray_scene_fields)
qed

lemma same_scene_hit_found:
  assumes "same_scene T T'" "s < length (xyz_sensors T)"
  shows "xyz_hit_found T' (s, a, e) = xyz_hit_found T (s, a, e)"
proof -
  from assms(1) have m: "map xyz_height (xyz_sensors T') = map xyz_height (xyz_sensors T)"
      "map parent_sensor_id (xyz_sensors T') = map parent_sensor_id (xyz_sensors T)"
    by (simp_all add: same_scene_def)
  have h: "xyz_height (xyz_sensors T' ! s) = xyz_height (xyz_sensors T ! s)"
    using map_eq_nth[OF m(1) assms(2)] .
  have p: "parent_sensor_id (xyz_sensors T' ! s) = parent_sensor_id (xyz_sensors T ! s)"
    using map_eq_nth[OF m(2) assms(2)] .
  from assms(1) have f: "xy_sensors T' = xy_sensors T" "elevations T' = elevations T"
      "hits T' = hits T"
    by (simp_all add: same_scene_def)
  show ?thesis
    by (simp add: xyz_hit_found_def h p f)
qed

lemma xyz_fold_char:
  assumes "same_scene T Tc" and "\<forall>ix \<in> set ixs. fst ix < length (xyz_sensors T)"
  shows "same_scene T (fold (\<lambda>ix T'. xyz_body T' ix) ixs Tc) \<and>
         xyz_views (fold (\<lambda>ix T'. xyz_body T' ix) ixs Tc)
           = xyz_views Tc \<union> {ix \<in> set ixs. xyz_hit_found T ix \<noteq> 1}"
  using assms
proof (induction ixs arbitrary: Tc)
  case Nil
  then show ?case by simp
next
  case (Cons ix ixs)
  obtain s a e where ix: "ix = (s, a, e)" by (cases ix)
  from Cons.prems(2) have s: "s < length (xyz_sensors T)" by (simp add: ix)
  have hf: "xyz_hit_found Tc ix = xyz_hit_found T ix"
    using same_scene_hit_found[OF Cons.prems(1) s] by (simp add: ix)
  let ?Tn = "if xyz_hit_found T ix \<noteq> 1 then mark_visible Tc ix else Tc"
  have b: "xyz_body Tc ix = ?Tn" by (simp add: xyz_body_def hf)
  have sn: "same_scene T ?Tn"
    using Cons.prems(1) by (simp add: same_scene_mark_visible)
  have r: "\<forall>ix \<in> set ixs. fst ix < length (xyz_sensors T)" using Cons.prems(2) by simp
  from Cons.IH[OF sn r] b show ?case
    by (auto simp: views_mark_visible)
qed

lemma xyz_trace_views:
  "xyz_views (xyz_trace T)
     = xyz_views T
       \<union> {ix \<in> set (ndrange (length (xyz_sensors T)) (n_azimuths T) (n_elevations T)).
            xyz_hit_found T ix \<noteq> 1}"
proof -
  have r: "\<forall>ix \<in> set (ndrange (length (xyz_sensors T)) (n_azimuths T) (n_elevations T)).
             fst ix < length (xyz_sensors T)"
    by (auto simp: set_ndrange)
  from xyz_fold_char[OF same_scene_refl r] show ?thesis
    by (simp add: xyz_trace_def)
qed

lemma two_phase_low_ray: "xyz_hit_found (xy_trace ray_scene) (Suc 0, 0, 0) = 1"
proof -
  have a: "pi / 30 < arctan (100 / 3)" by (rule arctan_big) simp
  have p: "parent_sensor_id (xyz_sensors ray_scene ! Suc 0) = Suc 0"
    by (simp add: ray_scene_def)
  show ?thesis
    using a xy_trace_ray_scene
    by (simp add: xyz_hit_found_def p ray_scene_rays ray_scene_el0 hit_at_def atan2_def)
qed

text \<open>
  Claim C7 fails on the small scene. \<^verbatim>\<open>xy_trace\<close> steps through two unrolled blocks of two
  steps, four steps in all and with no test against the maximal ray length, and logs the
  neighbour's cell at distance 3 for the second sensor; \<^verbatim>\<open>xyz_trace\<close> then finds the ray of
  the first elevation obstructed. The unified trace stops before distance 3 and sets the bit.
\<close>

theorem two_phase_differs_from_unified:
  "xyz_trace_unified ray_scene = Some traced_scene \<and>
   (Suc 0, 0, 0) \<in> xyz_views traced_scene \<and>
   (Suc 0, 0, 0) \<notin> xyz_views (two_phase_trace ray_scene)"
proof -
  have st: "0 < ray_step_size ray_scene" by (simp add: ray_scene_fields)
  from unified_trace_char[OF st] obtain T' where
    T': "xyz_trace_unified ray_scene = Some T'"
    and v: "xyz_views T' = xyz_views ray_scene
         \<union> {ix \<in> set (ndrange (length (xyz_sensors ray_scene)) (n_azimuths ray_scene)
                        (n_elevations ray_scene)). ray_clear ray_scene ix}"
    by blast
  have t: "traced_scene = T'" by (simp add: traced_scene_def T')
  have a: "(Suc 0, 0, 0) \<in> xyz_views T'"
    using low_ray_clear by (simp add: v set_ndrange ray_scene_fields)
  have b: "(Suc 0, 0, 0) \<notin> xyz_views (two_phase_trace ray_scene)"
    using two_phase_low_ray xy_trace_ray_scene
    by (simp add: two_phase_trace_def xyz_trace_views)
  from T' a b show ?thesis by (simp add: t)
qed

section \<open>Properties of the orientation weights\<close>

lemma py_fmod_range:
  assumes "0 < y"
  shows "0 \<le> py_fmod x y \<and> py_fmod x y < y"
proof -
  have a: "of_int \<lfloor>x / y\<rfloor> \<le> x / y" by simp
  have b: "x / y < of_int \<lfloor>x / y\<rfloor> + 1" by linarith
  from a have "y * of_int \<lfloor>x / y\<rfloor> \<le> y * (x / y)"
    using assms by (intro mult_left_mono) auto
  then have lo: "y * of_int \<lfloor>x / y\<rfloor> \<le> x" using assms by simp
  from b have "y * (x / y) < y * (of_int \<lfloor>x / y\<rfloor> + 1)"
    using assms by (intro mult_strict_left_mono) auto
  then have hi: "x < y * of_int \<lfloor>x / y\<rfloor> + y" using assms by (simp add: algebra_simps)
  from lo hi show ?thesis by (simp add: py_fmod_def)
qed

lemma orientation_weights_total:
  assumes "0 \<le> theta" "theta \<le> 2 * pi"
  shows "\<exists>n e s w. orientation_weights theta = Some (n, e, s, w) \<and> n + e + s + w = 1"
  using assms by (auto simp: orientation_weights_def Let_def)

lemma pass1_acc_ok:
  "\<exists>n e s w. n + e + s + w = 1 \<and>
     pass1_acc bs x = Inr (bs[building_id x := (bs ! building_id x)
        \<lparr> north_weight := fadd (north_weight (bs ! building_id x)) (Some (n * qualified_edge_length x)),
          east_weight := fadd (east_weight (bs ! building_id x)) (Some (e * qualified_edge_length x)),
          south_weight := fadd (south_weight (bs ! building_id x)) (Some (s * qualified_edge_length x)),
          west_weight := fadd (west_weight (bs ! building_id x)) (Some (w * qualified_edge_length x)),
          qualified_perim_length := qualified_perim_length (bs ! building_id x)
                                      + qualified_edge_length x \<rparr>])"
proof -
  have "0 \<le> py_fmod (normal_theta x + 2 * pi) (2 * pi) \<and>
        py_fmod (normal_theta x + 2 * pi) (2 * pi) < 2 * pi"
    by (rule py_fmod_range) simp
  then obtain n e s w where
    o: "orientation_weights (py_fmod (normal_theta x + 2 * pi) (2 * pi)) = Some (n, e, s, w)"
    and u: "n + e + s + w = 1"
    using orientation_weights_total[of "py_fmod (normal_theta x + 2 * pi) (2 * pi)"] by auto
  show ?thesis
    unfolding pass1_acc_def Let_def o using u by auto
qed

lemma pass1_fold:
  "\<exists>bs1. fold_err pass1_acc es bs = Inr bs1 \<and> length bs1 = length bs \<and>
     (\<forall>b < length bs.
        qualified_perim_length (bs1 ! b)
          = qualified_perim_length (bs ! b)
            + sum_list (map qualified_edge_length (filter (\<lambda>e. building_id e = b) es)) \<and>
        qualified_edge_weight_sum (bs1 ! b) = qualified_edge_weight_sum (bs ! b))"
proof (induction es arbitrary: bs)
  case Nil
  then show ?case by simp
next
  case (Cons x es)
  from pass1_acc_ok[of bs x] obtain bs' where
    a: "pass1_acc bs x = Inr bs'" and l: "length bs' = length bs"
    and p: "\<forall>b < length bs. qualified_perim_length (bs' ! b)
              = qualified_perim_length (bs ! b)
                + (if building_id x = b then qualified_edge_length x else 0) \<and>
            qualified_edge_weight_sum (bs' ! b) = qualified_edge_weight_sum (bs ! b)"
    by (auto simp: nth_list_update)
  from Cons.IH[of bs'] obtain bs1 where
    f: "fold_err pass1_acc es bs' = Inr bs1" and l1: "length bs1 = length bs'"
    and q: "\<forall>b < length bs'.
        qualified_perim_length (bs1 ! b)
          = qualified_perim_length (bs' ! b)
            + sum_list (map qualified_edge_length (filter (\<lambda>e. building_id e = b) es)) \<and>
        qualified_edge_weight_sum (bs1 ! b) = qualified_edge_weight_sum (bs' ! b)"
    by blast
  have "fold_err pass1_acc (x # es) bs = Inr bs1" using a f by simp
  moreover have "length bs1 = length bs" using l l1 by simp
  moreover have "\<forall>b < length bs.
        qualified_perim_length (bs1 ! b)
          = qualified_perim_length (bs ! b)
            + sum_list (map qualified_edge_length (filter (\<lambda>e. building_id e = b) (x # es))) \<and>
        qualified_edge_weight_sum (bs1 ! b) = qualified_edge_weight_sum (bs ! b)"
    using p q l by auto
  ultimately show ?case by blast
qed

lemma pass2_fold_zero:
  assumes "\<forall>e \<in> set es. weight e = Some 0" "b < length bs"
    and "qualified_edge_weight_sum (bs ! b) = Some q"
  shows "qualified_edge_weight_sum (fold pass2_acc es bs ! b) = Some q"
  using assms
proof (induction es arbitrary: bs)
  case Nil
  then show ?case by simp
next
  case (Cons x es)
  have l: "b < length (pass2_acc x bs)" using Cons.prems(2) by (simp add: pass2_acc_def Let_def)
  have w: "weight x = Some 0" using Cons.prems(1) by simp
  have q: "qualified_edge_weight_sum (pass2_acc x bs ! b) = Some q"
    using Cons.prems(2,3) w
    by (cases "building_id x = b") (simp_all add: pass2_acc_def Let_def fadd_def)
  from Cons.prems(1) have r: "\<forall>e \<in> set es. weight e = Some 0" by simp
  from Cons.IH[OF r l q] show ?case by simp
qed

lemma slab_edges_facts:
  assumes "x \<in> set slab_edges"
  shows "building_id x = 0 \<and> qualified_edge_length x = 2"
proof -
  have q: "qualified_edge_length (slab_edge s e v t) = 2"
    if "sqrt ((fst s - fst e)\<^sup>2 + (snd s - snd e)\<^sup>2) = 2" for s e v t
    using that by (simp add: qualified_edge_length_def slab_edge_def Let_def)
  have b: "building_id (slab_edge s e v t) = 0" for s e v t
    by (simp add: slab_edge_def)
  have four: "sqrt (4 :: real) = 2" by (rule real_sqrt_four)
  from assms consider
      i where "x = slab_edge (5 + 2 * real i, 5) (7 + 2 * real i, 5) (1, 0) (pi / 2)"
    | "x = slab_edge (71, 5) (71, 7) (0, 1) pi"
    | i where "x = slab_edge (71 - 2 * real i, 7) (69 - 2 * real i, 7) (- 1, 0) (- (pi / 2))"
    | "x = slab_edge (5, 7) (5, 5) (0, - 1) 0"
    by (auto simp: slab_edges_def)
  then show ?thesis
  proof cases
    case 1
    show ?thesis unfolding 1 by (simp add: b q four)
  next
    case 2
    show ?thesis unfolding 2 by (simp add: b q four)
  next
    case 3
    show ?thesis unfolding 3 by (simp add: b q four)
  next
    case 4
    show ?thesis unfolding 4 by (simp add: b q four)
  qed
qed

lemma length_slab_edges: "length slab_edges = 68"
  by (simp add: slab_edges_def)

lemma sum_list_const:
  "\<forall>x \<in> set xs. f x = (c :: real) \<Longrightarrow> sum_list (map f xs) = c * real (length xs)"
  by (induction xs) (auto simp: algebra_simps)

lemma map_const: "\<forall>x \<in> set xs. f x = c \<Longrightarrow> map f xs = replicate (length xs) c"
  by (induction xs) auto

text \<open>
  Claim C8 fails on the slab. Its qualified perimeter is 136 m and every edge is 2 m, less
  than 1.5 percent of it, so the second loop sets every weight to zero, the sum of the
  weights of the building is zero, and the third loop divides zero by zero: every edge
  weight is not a number, and their sum is not 1.
\<close>

theorem many_short_edges_break_weights:
  "compute_edge_orientation_weights (slab_edges, slab_buildings) = Inr slab_result \<and>
   qualified_perim_length (snd slab_result ! 0) = 136 \<and>
   map weight (fst slab_result) = replicate 68 None"
proof -
  from pass1_fold[of slab_edges slab_buildings] obtain bs1 where
    f: "fold_err pass1_acc slab_edges slab_buildings = Inr bs1"
    and l: "length bs1 = length slab_buildings"
    and p: "\<forall>b < length slab_buildings.
        qualified_perim_length (bs1 ! b)
          = qualified_perim_length (slab_buildings ! b)
            + sum_list (map qualified_edge_length (filter (\<lambda>e. building_id e = b) slab_edges)) \<and>
        qualified_edge_weight_sum (bs1 ! b) = qualified_edge_weight_sum (slab_buildings ! b)"
    by blast
  have flt: "filter (\<lambda>e. building_id e = 0) slab_edges = slab_edges"
    using slab_edges_facts by (simp add: filter_id_conv)
  have "sum_list (map qualified_edge_length slab_edges) = 2 * real (length slab_edges)"
    using slab_edges_facts by (intro sum_list_const) simp
  then have sm: "sum_list (map qualified_edge_length slab_edges) = 136"
    by (simp add: length_slab_edges)
  have l1: "length bs1 = 1" using l by (simp add: slab_buildings_def)
  have perim: "qualified_perim_length (bs1 ! 0) = 136"
    using p[rule_format, of 0] by (simp add: slab_buildings_def flt sm)
  have qews1: "qualified_edge_weight_sum (bs1 ! 0) = Some 0"
    using p[rule_format, of 0] by (simp add: slab_buildings_def)
  define es1 where "es1 = map pass1_edge slab_edges"
  define es2 where "es2 = map (pass2_edge bs1) es1"
  define bs2 where "bs2 = fold pass2_acc es2 bs1"
  define es3 where "es3 = map (pass3_edge bs2) es2"
  have w1: "\<forall>e \<in> set es1. qualified_length e = 2 \<and> building_id e = 0"
    using slab_edges_facts by (auto simp: es1_def pass1_edge_def)
  have w2: "\<forall>e \<in> set es2. weight e = Some 0 \<and> building_id e = 0"
    using w1 by (auto simp: es2_def pass2_edge_def Let_def perim fdiv_def)
  then have w2': "\<forall>e \<in> set es2. weight e = Some 0" by blast
  have b0: "0 < length bs1" using l1 by simp
  have qews2: "qualified_edge_weight_sum (bs2 ! 0) = Some 0"
    unfolding bs2_def using pass2_fold_zero[OF w2' b0 qews1] .
  have w3: "\<forall>e \<in> set es3. weight e = None"
    using w2 by (auto simp: es3_def pass3_edge_def qews2 fdiv_opt_def fdiv_def)
  have len3: "length es3 = 68"
    by (simp add: es3_def es2_def es1_def length_slab_edges)
  have m: "map weight es3 = replicate 68 None"
    using map_const[OF w3] len3 by simp
  have perim2: "qualified_perim_length (fold pass2_acc es bs ! 0) = qualified_perim_length (bs ! 0)"
    for es bs
  proof (induction es arbitrary: bs)
    case Nil
    then show ?case by simp
  next
    case (Cons x es)
    have "qualified_perim_length (pass2_acc x bs ! 0) = qualified_perim_length (bs ! 0)"
      by (cases "building_id x < length bs"; cases "building_id x = 0")
         (simp_all add: pass2_acc_def Let_def list_update_beyond not_less)
    with Cons.IH[of "pass2_acc x bs"] show ?case by simp
  qed
  have len2: "length (fold pass2_acc es bs) = length bs" for es bs
    by (induction es arbitrary: bs) (auto simp: pass2_acc_def Let_def)
  have perim4: "qualified_perim_length (map pass4_building bs2 ! 0) = 136"
    using b0 by (simp add: bs2_def len2 pass4_building_def Let_def perim2 perim)
  have c: "compute_edge_orientation_weights (slab_edges, slab_buildings)
             = Inr (es3, map pass4_building bs2)"
    by (simp add: compute_edge_orientation_weights_def f Let_def es3_def bs2_def es2_def es1_def)
  then have r: "slab_result = (es3, map pass4_building bs2)"
    by (simp add: slab_result_def)
  from c m perim4 show ?thesis unfolding r by simp
qed

end
